theory Spec2Isabelle
  imports Complex_Main
begin

section \<open>Scroll physics and section snapping of the 3D path\<close>

text \<open>
  The development embeds the two scroller classes of the repository
  (\<open>EnhancedMomentumScroller\<close> and \<open>SmoothSectionScroller\<close>) and the scene window
  builder \<open>PathRenderer.createDottedPath\<close>. JavaScript numbers are modelled as
  mathematical reals (integers where the source only ever holds integers: section
  positions, row indices, agent indices, millisecond time stamps); rounding and
  \<open>NaN\<close> are not modelled. Mutable fields become a record that every handler
  takes and returns; calls into collaborators (scene rebuild, background notifier, audio,
  animation manager, the tween library) are appended to an effect log.
\<close>

subsection \<open>Section map\<close>

datatype section_type = agent | milestone | shape | decorative | micro

record ScrollSection =
  sec_position :: int
  sec_type :: section_type
  magnetism :: real
  snapDuration :: real

text \<open>The body of the loop of \<open>EnhancedMomentumScroller.generateSections\<close>: the section
  pushed for loop index \<open>pos\<close>, if any.\<close>

definition sectionAt :: "int \<Rightarrow> ScrollSection option" where
  "sectionAt pos =
    (if pos = 0 then
       Some \<lparr>sec_position = 0, sec_type = agent, magnetism = 100, snapDuration = 1.8\<rparr>
     else if pos mod 60 = 0 then
       Some \<lparr>sec_position = pos, sec_type = agent, magnetism = 100, snapDuration = 2.0\<rparr>
     else if pos mod 40 = 0 then
       Some \<lparr>sec_position = pos, sec_type = milestone, magnetism = 90, snapDuration = 1.6\<rparr>
     else if pos mod 15 = 0 then
       Some \<lparr>sec_position = pos, sec_type = shape, magnetism = 75, snapDuration = 1.2\<rparr>
     else if pos mod 8 = 0 then
       Some \<lparr>sec_position = pos, sec_type = decorative, magnetism = 60, snapDuration = 1.0\<rparr>
     else if pos mod 3 = 0 then
       Some \<lparr>sec_position = pos, sec_type = micro, magnetism = 35, snapDuration = 0.6\<rparr>
     else None)"

text \<open>\<open>for (pos = 0; pos <= 3000; pos++)\<close> followed by the stable sort on position.\<close>

definition generateSections :: "ScrollSection list" where
  "generateSections = sort_key sec_position (List.map_filter sectionAt [0..3000])"

text \<open>\<open>SmoothSectionScroller\<close> has its own section table: no micro stops, nothing at
  position 0, horizon 2000.\<close>

record SectionConfig =
  cfg_position :: int
  cfg_type :: section_type
  priority :: real

definition AGENT_SPACING :: int where "AGENT_SPACING = 60"
definition MILESTONE_SPACING :: int where "MILESTONE_SPACING = 40"
definition SHAPE_SPACING :: int where "SHAPE_SPACING = 15"
definition DECORATIVE_SPACING :: int where "DECORATIVE_SPACING = 8"

definition smoothSectionAt :: "int \<Rightarrow> SectionConfig option" where
  "smoothSectionAt pos =
    (if pos mod AGENT_SPACING = 0 \<and> pos > 0 then
       Some \<lparr>cfg_position = pos, cfg_type = agent, priority = 100\<rparr>
     else if pos mod MILESTONE_SPACING = 0 \<and> pos > 0 \<and> pos mod AGENT_SPACING \<noteq> 0 then
       Some \<lparr>cfg_position = pos, cfg_type = milestone, priority = 80\<rparr>
     else if pos mod SHAPE_SPACING = 0 \<and> pos > 0 \<and> pos mod AGENT_SPACING \<noteq> 0
             \<and> pos mod MILESTONE_SPACING \<noteq> 0 then
       Some \<lparr>cfg_position = pos, cfg_type = shape, priority = 60\<rparr>
     else if pos mod DECORATIVE_SPACING = 0 \<and> pos > 0 \<and> pos mod AGENT_SPACING \<noteq> 0
             \<and> pos mod MILESTONE_SPACING \<noteq> 0 \<and> pos mod SHAPE_SPACING \<noteq> 0 then
       Some \<lparr>cfg_position = pos, cfg_type = decorative, priority = 40\<rparr>
     else None)"

definition smoothGenerateSections :: "SectionConfig list" where
  "smoothGenerateSections = sort_key cfg_position (List.map_filter smoothSectionAt [0..2000])"

text \<open>The rule of the specification, in its own words: the type of a position is the first
  of agent (every 60), milestone (every 40), shape (every 15), decorative (every 8) and
  micro (every 3) whose spacing divides it.\<close>

definition spacingType :: "int \<Rightarrow> section_type option" where
  "spacingType p =
    (if 60 dvd p then Some agent
     else if 40 dvd p then Some milestone
     else if 15 dvd p then Some shape
     else if 8 dvd p then Some decorative
     else if 3 dvd p then Some micro
     else None)"

subsection \<open>State of \<open>EnhancedMomentumScroller\<close>\<close>

record TouchState =
  touch_startY :: real
  touch_lastY :: real
  touch_startTime :: int
  touch_isActive :: bool
  touch_velocity :: real
  touch_lastVelocity :: real
  touch_acceleration :: real

text \<open>What \<open>gsap.to(positionRef, {current: \<dots>, duration: \<dots>, ease: \<dots>, onComplete})\<close> is
  given: the end value, the duration, the easing name, and the section the completion
  callback closes over.\<close>

record GSAPTween =
  tween_current :: real
  tween_duration :: real
  tween_ease :: string
  tween_section :: ScrollSection

text \<open>Calls into collaborators, in the order they are made.\<close>

datatype effect =
    CreateDottedPath
  | UpdateBackgroundForAgent int
  | PlayTransitionSound
  | OptimizeForGSAPAnimation bool
  | TweenKill

text \<open>
  The fields of the class that its handlers read or write. The three collaborator
  references are \<open>True\<close> when \<open>ref.current\<close> is an object (with the optional method
  present), \<open>gsap\<close> is \<open>True\<close> when \<open>window.gsap\<close> is defined. \<open>momentumTween\<close> is never
  assigned in the source and stays \<open>null\<close>, so it is left out. Two fields are not the
  class's own: \<open>activeTweens\<close> is the tween library's list of running tweens on
  \<open>positionRef\<close>, and \<open>snapCalls\<close> records the argument of every invocation of
  \<open>snapToSection\<close>.
\<close>

record Scroller =
  positionRef :: real
  pathRendererRef :: bool
  sceneManagerRef :: bool
  currentAgentRef :: int
  animationManagerRef :: bool
  velocity :: real
  isScrolling :: bool
  isSnapping :: bool
  lastUpdateTime :: int
  sections :: "ScrollSection list"
  lastTargetSection :: "ScrollSection option"
  inputAccumulator :: real
  lastInputTime :: int
  inputVelocity :: real
  touchState :: TouchState
  currentTween :: "GSAPTween option"
  lastPlayedAgentIndex :: "int option"
  isPhysicsPaused :: bool
  gsap :: bool
  activeTweens :: "GSAPTween list"
  effects :: "effect list"
  snapCalls :: "ScrollSection list"

definition friction :: real where "friction = 0.015"
definition maxVelocity :: real where "maxVelocity = 25"
definition minVelocity :: real where "minVelocity = 0.02"
definition snapRadius :: real where "snapRadius = 30"
definition accelerationMultiplier :: real where "accelerationMultiplier = 1.2"

text \<open>The constructor: fields at their initialisers, the section map generated. (The
  listeners it registers and the physics loop it starts are the events below.)\<close>

definition newScroller :: "real \<Rightarrow> bool \<Rightarrow> bool \<Rightarrow> int \<Rightarrow> bool \<Rightarrow> bool \<Rightarrow> Scroller" where
  "newScroller pos pathRenderer sceneManager currentAgent animationManager hasGsap =
    \<lparr>positionRef = pos, pathRendererRef = pathRenderer, sceneManagerRef = sceneManager,
     currentAgentRef = currentAgent, animationManagerRef = animationManager,
     velocity = 0, isScrolling = False, isSnapping = False, lastUpdateTime = 0,
     sections = generateSections, lastTargetSection = None, inputAccumulator = 0,
     lastInputTime = 0, inputVelocity = 0,
     touchState = \<lparr>touch_startY = 0, touch_lastY = 0, touch_startTime = 0,
       touch_isActive = False, touch_velocity = 0, touch_lastVelocity = 0,
       touch_acceleration = 0\<rparr>,
     currentTween = None, lastPlayedAgentIndex = None, isPhysicsPaused = False,
     gsap = hasGsap, activeTweens = [], effects = [], snapCalls = []\<rparr>"

subsection \<open>Scene update, tweens and snapping\<close>

definition emit :: "effect \<Rightarrow> Scroller \<Rightarrow> Scroller" where
  "emit e s = s\<lparr>effects := effects s @ [e]\<rparr>"

definition playTransitionSound :: "Scroller \<Rightarrow> Scroller" where
  "playTransitionSound s = emit PlayTransitionSound s"

definition updateScene :: "Scroller \<Rightarrow> Scroller" where
  "updateScene s =
    (let s1 = (if pathRendererRef s then emit CreateDottedPath s else s);
         currentAgent = \<lfloor>positionRef s1 / 60\<rfloor>;
         s2 = (if currentAgent \<noteq> currentAgentRef s1 \<and> sceneManagerRef s1
               then emit (UpdateBackgroundForAgent currentAgent)
                      (s1\<lparr>currentAgentRef := currentAgent\<rparr>)
               else s1)
     in if Some currentAgent \<noteq> lastPlayedAgentIndex s2
        then (let s3 = s2\<lparr>lastPlayedAgentIndex := Some currentAgent\<rparr>
              in if currentAgent > 0 then playTransitionSound s3 else s3)
        else s2)"

definition killAllTweens :: "Scroller \<Rightarrow> Scroller" where
  "killAllTweens s =
    (if gsap s then
       (case currentTween s of
          Some tw \<Rightarrow> emit TweenKill
            (s\<lparr>activeTweens := remove1 tw (activeTweens s), currentTween := None\<rparr>)
        | None \<Rightarrow> s)
     else s)"

definition snapToSection :: "ScrollSection \<Rightarrow> Scroller \<Rightarrow> Scroller" where
  "snapToSection targetSection s0 =
    (let s = s0\<lparr>snapCalls := snapCalls s0 @ [targetSection]\<rparr> in
     if isSnapping s then s
     else
       let s1 = killAllTweens
                  (s\<lparr>isSnapping := True, isScrolling := False, velocity := 0,
                     inputAccumulator := 0\<rparr>)
       in if \<not> gsap s1 then
            (updateScene (s1\<lparr>positionRef := real_of_int (sec_position targetSection)\<rparr>))
              \<lparr>isSnapping := False\<rparr>
          else
            let distance = \<bar>real_of_int (sec_position targetSection) - positionRef s1\<bar>;
                baseDuration = snapDuration targetSection;
                adjustedDuration = min (baseDuration * (1 + distance / 100)) (baseDuration * 2);
                s2 = (if animationManagerRef s1 then emit (OptimizeForGSAPAnimation True) s1
                      else s1);
                tw = \<lparr>tween_current = real_of_int (sec_position targetSection),
                      tween_duration = adjustedDuration, tween_ease = ''power2.out'',
                      tween_section = targetSection\<rparr>;
                s3 = s2\<lparr>currentTween := Some tw, activeTweens := activeTweens s2 @ [tw]\<rparr>
            in if sec_type targetSection = agent then playTransitionSound s3 else s3)"

text \<open>The completion of the running snap tween, as the tween library performs it: it
  writes the end value into \<open>positionRef.current\<close>, calls \<open>onUpdate\<close> and then
  \<open>onComplete\<close>. The library's writes between start and completion are not modelled.\<close>

definition tweenComplete :: "Scroller \<Rightarrow> Scroller" where
  "tweenComplete s =
    (case currentTween s of
       None \<Rightarrow> s
     | Some tw \<Rightarrow>
         if tw \<in> set (activeTweens s) then
           let s1 = updateScene
                      (s\<lparr>positionRef := tween_current tw,
                         activeTweens := remove1 tw (activeTweens s)\<rparr>);
               s2 = s1\<lparr>isSnapping := False, lastTargetSection := Some (tween_section tw)\<rparr>
           in if animationManagerRef s2 then emit (OptimizeForGSAPAnimation False) s2 else s2
         else s)"

subsection \<open>Section queries\<close>

datatype snap_type = SnapAgent | SnapAny

definition findTargetSection :: "real \<Rightarrow> snap_type \<Rightarrow> Scroller \<Rightarrow> ScrollSection option" where
  "findTargetSection direction ty s =
    (let currentPos = positionRef s;
         candidates = (if ty = SnapAgent
                       then filter (\<lambda>x. sec_type x = agent) (sections s)
                       else filter (\<lambda>x. magnetism x \<ge> 55) (sections s))
     in if direction > 0
        then List.find (\<lambda>x. real_of_int (sec_position x) > currentPos + 1) candidates
        else List.find (\<lambda>x. real_of_int (sec_position x) < currentPos - 1) (rev candidates))"

definition snapScore :: "real \<Rightarrow> real \<Rightarrow> ScrollSection \<Rightarrow> real" where
  "snapScore currentPos predictedPos section =
    (let distance = \<bar>real_of_int (sec_position section) - currentPos\<bar>;
         predictedDistance = \<bar>real_of_int (sec_position section) - predictedPos\<bar>;
         magnetismScore = magnetism section / 100;
         proximityScore = 1 - (distance / snapRadius);
         predictionScore = 1 - (predictedDistance / (snapRadius * 1.5))
     in magnetismScore * 0.4 + proximityScore * 0.4 + predictionScore * 0.2)"

definition findBestSnapTarget :: "Scroller \<Rightarrow> ScrollSection option" where
  "findBestSnapTarget s =
    (let currentPos = positionRef s;
         velocityDirection = sgn (velocity s);
         searchAhead = velocityDirection * min (\<bar>velocity s\<bar> * 2) 20;
         predictedPos = currentPos + searchAhead;
         candidates = filter
           (\<lambda>x. \<bar>real_of_int (sec_position x) - predictedPos\<bar> \<le> snapRadius * 1.5) (sections s)
     in if candidates = [] then None
        else
          let scored = map (\<lambda>section. (section, snapScore currentPos predictedPos section))
                         candidates;
              sorted_scored = sort_key (\<lambda>p. - snd p) scored
          in (case sorted_scored of [] \<Rightarrow> None | p # _ \<Rightarrow> Some (fst p)))"

subsection \<open>Momentum integration\<close>

definition magneticStep :: "real \<Rightarrow> ScrollSection \<Rightarrow> real \<Rightarrow> real" where
  "magneticStep currentPos section v =
    (let distance = real_of_int (sec_position section) - currentPos;
         absDistance = \<bar>distance\<bar>
     in if absDistance > 0.5 \<and> absDistance \<le> snapRadius then
          (let force = (magnetism section / 100) * (1 - absDistance / snapRadius);
               magneticForce = sgn distance * force * 0.02
           in v + magneticForce)
        else v)"

definition applyMagneticForces :: "Scroller \<Rightarrow> Scroller" where
  "applyMagneticForces s =
    (if \<bar>velocity s\<bar> > 5 then s
     else
       let currentPos = positionRef s;
           nearSections = filter
             (\<lambda>x. \<bar>real_of_int (sec_position x) - currentPos\<bar> \<le> snapRadius) (sections s)
       in s\<lparr>velocity := fold (magneticStep currentPos) nearSections (velocity s)\<rparr>)"

definition updateMomentum :: "real \<Rightarrow> Scroller \<Rightarrow> Scroller" where
  "updateMomentum deltaTime s =
    (if isSnapping s then s
     else
       let s1 = s\<lparr>velocity := velocity s * (friction powr (deltaTime / 16))\<rparr>;
           s2 = (if \<bar>inputAccumulator s1\<bar> > 0.001
                 then s1\<lparr>velocity := velocity s1 + inputAccumulator s1 * 0.5,
                         inputAccumulator := inputAccumulator s1 * 0.85\<rparr>
                 else s1);
           s3 = applyMagneticForces s2
       in if \<bar>velocity s3\<bar> < minVelocity then s3\<lparr>velocity := 0\<rparr>
          else s3\<lparr>velocity := max (- maxVelocity) (min maxVelocity (velocity s3))\<rparr>)"

definition updatePosition :: "Scroller \<Rightarrow> Scroller" where
  "updatePosition s =
    (if \<bar>velocity s\<bar> > 0.01 then
       (let newPosition = max 0 (positionRef s + velocity s)
        in if newPosition \<noteq> positionRef s
           then updateScene (s\<lparr>positionRef := newPosition\<rparr>)
           else s)
     else s)"

definition checkForAutoSnap :: "Scroller \<Rightarrow> Scroller" where
  "checkForAutoSnap s =
    (if isSnapping s \<or> isScrolling s then s
     else
       let currentVel = \<bar>velocity s\<bar>
       in if currentVel > 0.1 \<and> currentVel < 2 then
            (case findBestSnapTarget s of
               Some targetSection \<Rightarrow>
                 (let distance = \<bar>real_of_int (sec_position targetSection) - positionRef s\<bar>;
                      shouldSnap = (distance \<le> snapRadius \<and> magnetism targetSection \<ge> 55)
                  in if shouldSnap then snapToSection targetSection s else s)
             | None \<Rightarrow> s)
          else s)"

text \<open>One turn of the physics loop at time \<open>now\<close>;
  \<open>deltaTime = now - lastUpdateTime || 16\<close>.\<close>

definition updatePhysics :: "int \<Rightarrow> Scroller \<Rightarrow> Scroller" where
  "updatePhysics now s =
    (if \<not> isPhysicsPaused s then
       (let deltaTime = (if now - lastUpdateTime s = 0 then 16 else now - lastUpdateTime s);
            s1 = s\<lparr>lastUpdateTime := now\<rparr>
        in checkForAutoSnap (updatePosition (updateMomentum (real_of_int deltaTime) s1)))
     else s)"

subsection \<open>Input handlers\<close>

definition handleWheel :: "bool \<Rightarrow> real \<Rightarrow> int \<Rightarrow> Scroller \<Rightarrow> Scroller" where
  "handleWheel ctrlOrMeta deltaY now s =
    (if ctrlOrMeta then s
     else
       let intensity = min \<bar>deltaY\<bar> 150;
           direction = sgn deltaY;
           acceleration = direction * intensity * 0.015 * accelerationMultiplier
       in s\<lparr>inputAccumulator := inputAccumulator s + direction * intensity * 0.01,
            lastInputTime := now,
            isScrolling := True,
            velocity := max (- maxVelocity) (min maxVelocity (velocity s + acceleration)),
            inputVelocity := direction * intensity * 0.02\<rparr>)"

definition keyTarget :: "string \<Rightarrow> bool \<Rightarrow> Scroller \<Rightarrow> ScrollSection option" where
  "keyTarget key shiftKey s =
    (if key \<in> {''ArrowUp'', ''w'', ''W''} then
       findTargetSection (-1) (if shiftKey then SnapAgent else SnapAny) s
     else if key \<in> {''ArrowDown'', ''s'', ''S''} then
       findTargetSection 1 (if shiftKey then SnapAgent else SnapAny) s
     else if key \<in> {''ArrowLeft'', ''a'', ''A''} then
       findTargetSection (-1) SnapAgent s
     else if key \<in> {''ArrowRight'', ''d'', ''D'', '' ''} then
       findTargetSection 1 SnapAgent s
     else None)"

definition handleKeyDown :: "string \<Rightarrow> bool \<Rightarrow> Scroller \<Rightarrow> Scroller" where
  "handleKeyDown key shiftKey s =
    (if isSnapping s then s
     else (case keyTarget key shiftKey s of
             Some targetSection \<Rightarrow> snapToSection targetSection s
           | None \<Rightarrow> s))"

definition handleTouchStart :: "nat \<Rightarrow> real \<Rightarrow> int \<Rightarrow> Scroller \<Rightarrow> Scroller" where
  "handleTouchStart touches clientY now s =
    (if touches = 1 then
       (killAllTweens
          (s\<lparr>touchState := \<lparr>touch_startY = clientY, touch_lastY = clientY,
               touch_startTime = now, touch_isActive = True, touch_velocity = 0,
               touch_lastVelocity = 0, touch_acceleration = 0\<rparr>\<rparr>))
         \<lparr>velocity := 0\<rparr>
     else s)"

definition handleTouchMove :: "nat \<Rightarrow> real \<Rightarrow> int \<Rightarrow> Scroller \<Rightarrow> Scroller" where
  "handleTouchMove touches currentY now s =
    (if \<not> touch_isActive (touchState s) \<or> touches \<noteq> 1 then s
     else
       let ts = touchState s;
           deltaY = touch_lastY ts - currentY;
           timeDelta = real_of_int (now - touch_startTime ts)
       in if \<bar>deltaY\<bar> > 1 then
            (let v = deltaY / max timeDelta 1 * 60;
                 ts' = ts\<lparr>touch_lastVelocity := touch_velocity ts,
                         touch_velocity := v,
                         touch_acceleration := (v - touch_velocity ts) / max timeDelta 1,
                         touch_lastY := currentY\<rparr>;
                 enhancedDelta = deltaY * 0.18
             in s\<lparr>touchState := ts',
                  velocity := max (- maxVelocity) (min maxVelocity (velocity s + enhancedDelta)),
                  isScrolling := True\<rparr>)
          else s)"

definition handleTouchEnd :: "Scroller \<Rightarrow> Scroller" where
  "handleTouchEnd s =
    (if \<not> touch_isActive (touchState s) then s
     else
       let finalVelocity = max (-35) (min 35 (touch_velocity (touchState s)));
           accelerationBoost = touch_acceleration (touchState s) * 0.5
       in s\<lparr>velocity := velocity s + (finalVelocity * 0.35 + accelerationBoost),
            touchState := (touchState s)\<lparr>touch_isActive := False\<rparr>\<rparr>)"

definition clickTarget :: "real \<Rightarrow> real \<Rightarrow> Scroller \<Rightarrow> ScrollSection option" where
  "clickTarget clickX screenWidth s =
    (if clickX < screenWidth * 0.15 then findTargetSection (-1) SnapAgent s
     else if clickX > screenWidth * 0.85 then findTargetSection 1 SnapAgent s
     else if clickX < screenWidth * 0.35 then findTargetSection (-1) SnapAny s
     else if clickX > screenWidth * 0.65 then findTargetSection 1 SnapAny s
     else None)"

definition handleClick :: "real \<Rightarrow> real \<Rightarrow> real \<Rightarrow> Scroller \<Rightarrow> Scroller" where
  "handleClick clickX clickY screenWidth s =
    (if isSnapping s then s
     else if clickX \<ge> screenWidth - 200 \<and> clickY \<le> 100 then s
     else (case clickTarget clickX screenWidth s of
             Some targetSection \<Rightarrow> snapToSection targetSection s
           | None \<Rightarrow> s))"

definition handleInputEnd :: "Scroller \<Rightarrow> Scroller" where
  "handleInputEnd s = s\<lparr>isScrolling := False, inputAccumulator := inputAccumulator s * 0.5\<rparr>"

text \<open>The callback \<open>handleInputEnd\<close> schedules 200 ms later.\<close>

definition delayedAutoSnap :: "Scroller \<Rightarrow> Scroller" where
  "delayedAutoSnap s = (if \<not> isScrolling s \<and> \<not> isSnapping s then checkForAutoSnap s else s)"

definition pausePhysicsLoop :: "Scroller \<Rightarrow> Scroller" where
  "pausePhysicsLoop s = s\<lparr>isPhysicsPaused := True\<rparr>"

definition resumePhysicsLoop :: "Scroller \<Rightarrow> Scroller" where
  "resumePhysicsLoop s = s\<lparr>isPhysicsPaused := False\<rparr>"

subsection \<open>Runs\<close>

text \<open>Everything that can happen to a scroller: the six listeners, a turn of the physics
  loop, the two timer callbacks (which may fire at any time a timer is pending; the
  model lets them fire at any time), the completion of the snap tween, and the two public
  switches of the physics loop.\<close>

datatype event =
    Wheel bool real int
  | KeyDown string bool
  | TouchStart nat real int
  | TouchMove nat real int
  | TouchEnd
  | Click real real real
  | Frame int
  | InputEnd
  | DelayedAutoSnap
  | TweenComplete
  | Pause
  | Resume

fun step :: "event \<Rightarrow> Scroller \<Rightarrow> Scroller" where
  "step (Wheel ctrlOrMeta deltaY now) s = handleWheel ctrlOrMeta deltaY now s"
| "step (KeyDown key shiftKey) s = handleKeyDown key shiftKey s"
| "step (TouchStart touches clientY now) s = handleTouchStart touches clientY now s"
| "step (TouchMove touches clientY now) s = handleTouchMove touches clientY now s"
| "step TouchEnd s = handleTouchEnd s"
| "step (Click clickX clickY screenWidth) s = handleClick clickX clickY screenWidth s"
| "step (Frame now) s = updatePhysics now s"
| "step InputEnd s = handleInputEnd s"
| "step DelayedAutoSnap s = delayedAutoSnap s"
| "step TweenComplete s = tweenComplete s"
| "step Pause s = pausePhysicsLoop s"
| "step Resume s = resumePhysicsLoop s"

definition run :: "event list \<Rightarrow> Scroller \<Rightarrow> Scroller" where
  "run evs s = fold step evs s"

subsection \<open>\<open>SmoothSectionScroller\<close>\<close>

text \<open>The second scroller class. Its tweens are of two kinds: the short scroll tween of
  \<open>applyImmediateScroll\<close> (no completion callback) and the snap tween.\<close>

record SmoothTween =
  stw_current :: real
  stw_duration :: real
  stw_ease :: string
  stw_isSnap :: bool

record SmoothScroller =
  sm_positionRef :: real
  sm_pathRendererRef :: bool
  sm_sceneManagerRef :: bool
  sm_currentAgentRef :: int
  sm_animationManagerRef :: bool
  sm_isScrolling :: bool
  sm_isSnapping :: bool
  scrollVelocity :: real
  scrollAccumulator :: real
  lastScrollTime :: int
  scrollDirection :: real
  sm_sections :: "SectionConfig list"
  sm_currentTween :: "SmoothTween option"
  sm_gsap :: bool
  sm_activeTweens :: "SmoothTween list"
  sm_effects :: "effect list"

definition SCROLL_SENSITIVITY :: real where "SCROLL_SENSITIVITY = 0.8"

definition newSmoothScroller ::
  "real \<Rightarrow> bool \<Rightarrow> bool \<Rightarrow> int \<Rightarrow> bool \<Rightarrow> bool \<Rightarrow> SmoothScroller" where
  "newSmoothScroller pos pathRenderer sceneManager currentAgent animationManager hasGsap =
    \<lparr>sm_positionRef = pos, sm_pathRendererRef = pathRenderer,
     sm_sceneManagerRef = sceneManager, sm_currentAgentRef = currentAgent,
     sm_animationManagerRef = animationManager, sm_isScrolling = False,
     sm_isSnapping = False, scrollVelocity = 0, scrollAccumulator = 0, lastScrollTime = 0,
     scrollDirection = 0, sm_sections = smoothGenerateSections, sm_currentTween = None,
     sm_gsap = hasGsap, sm_activeTweens = [], sm_effects = []\<rparr>"

definition sm_emit :: "effect \<Rightarrow> SmoothScroller \<Rightarrow> SmoothScroller" where
  "sm_emit e s = s\<lparr>sm_effects := sm_effects s @ [e]\<rparr>"

text \<open>\<open>SmoothSectionScroller.updateScene\<close>: the background sink is called when the index
  differs from \<open>currentAgentRef.current\<close>; the reference is not written.\<close>

definition sm_updateScene :: "SmoothScroller \<Rightarrow> SmoothScroller" where
  "sm_updateScene s =
    (let s1 = (if sm_pathRendererRef s then sm_emit CreateDottedPath s else s);
         currentAgent = \<lfloor>sm_positionRef s1 / 60\<rfloor>
     in if currentAgent \<noteq> sm_currentAgentRef s1 \<and> sm_sceneManagerRef s1
        then sm_emit (UpdateBackgroundForAgent currentAgent) s1
        else s1)"

text \<open>\<open>if (this.currentTween && typeof kill === 'function') { kill(); currentTween = null }\<close>\<close>

definition sm_killTween :: "SmoothScroller \<Rightarrow> SmoothScroller" where
  "sm_killTween s =
    (case sm_currentTween s of
       Some tw \<Rightarrow> sm_emit TweenKill
         (s\<lparr>sm_activeTweens := remove1 tw (sm_activeTweens s), sm_currentTween := None\<rparr>)
     | None \<Rightarrow> s)"

definition applyImmediateScroll :: "SmoothScroller \<Rightarrow> SmoothScroller" where
  "applyImmediateScroll s =
    (if \<bar>scrollAccumulator s\<bar> > 0.1 then
       (let movement = scrollAccumulator s * 0.3;
            newPosition = max 0 (sm_positionRef s + movement);
            s1 = sm_killTween s;
            s2 = (if sm_gsap s1 then
                    (let tw = \<lparr>stw_current = newPosition, stw_duration = 0.1,
                               stw_ease = ''power2.out'', stw_isSnap = False\<rparr>
                     in s1\<lparr>sm_currentTween := Some tw,
                           sm_activeTweens := sm_activeTweens s1 @ [tw]\<rparr>)
                  else sm_updateScene (s1\<lparr>sm_positionRef := newPosition\<rparr>))
        in s2\<lparr>scrollAccumulator := scrollAccumulator s2 * 0.7\<rparr>)
     else s)"

definition sm_playTransitionSound :: "SmoothScroller \<Rightarrow> SmoothScroller" where
  "sm_playTransitionSound s = sm_emit PlayTransitionSound s"

definition sm_snapToSection :: "real \<Rightarrow> real \<Rightarrow> SmoothScroller \<Rightarrow> SmoothScroller" where
  "sm_snapToSection targetPosition duration s =
    (if sm_isSnapping s \<or> targetPosition = sm_positionRef s then s
     else
       let s1 = sm_killTween
                  (s\<lparr>sm_isSnapping := True, sm_isScrolling := False, scrollAccumulator := 0\<rparr>)
       in if \<not> sm_gsap s1 then
            (sm_updateScene (s1\<lparr>sm_positionRef := targetPosition\<rparr>))\<lparr>sm_isSnapping := False\<rparr>
          else
            let distance = \<bar>targetPosition - sm_positionRef s1\<bar>;
                ease = (if distance > 100 then ''power2.inOut'' else ''power3.out'');
                s2 = (if sm_animationManagerRef s1
                      then sm_emit (OptimizeForGSAPAnimation True) s1 else s1);
                tw = \<lparr>stw_current = targetPosition, stw_duration = duration,
                      stw_ease = ease, stw_isSnap = True\<rparr>;
                s3 = s2\<lparr>sm_currentTween := Some tw,
                        sm_activeTweens := sm_activeTweens s2 @ [tw]\<rparr>
            in (case List.find (\<lambda>c. real_of_int (cfg_position c) = targetPosition)
                       (sm_sections s3) of
                  Some section \<Rightarrow>
                    if cfg_type section = agent then sm_playTransitionSound s3 else s3
                | None \<Rightarrow> s3))"

text \<open>Completion of the current tween of the smooth scroller, as the tween library
  performs it: end value written, \<open>onUpdate\<close>, then (snap tween only) \<open>onComplete\<close>.\<close>

definition sm_tweenComplete :: "SmoothScroller \<Rightarrow> SmoothScroller" where
  "sm_tweenComplete s =
    (case sm_currentTween s of
       None \<Rightarrow> s
     | Some tw \<Rightarrow>
         if tw \<in> set (sm_activeTweens s) then
           let s1 = sm_updateScene
                      (s\<lparr>sm_positionRef := stw_current tw,
                         sm_activeTweens := remove1 tw (sm_activeTweens s)\<rparr>)
           in if stw_isSnap tw then
                (let s2 = s1\<lparr>sm_isSnapping := False\<rparr>
                 in if sm_animationManagerRef s2
                    then sm_emit (OptimizeForGSAPAnimation False) s2 else s2)
              else s1
         else s)"

definition sm_handleWheel :: "bool \<Rightarrow> real \<Rightarrow> int \<Rightarrow> SmoothScroller \<Rightarrow> SmoothScroller" where
  "sm_handleWheel ctrlOrMeta deltaY now s =
    (if ctrlOrMeta then s
     else if sm_isSnapping s then s
     else
       let scrollIntensity = min \<bar>deltaY\<bar> 100;
           direction = (if deltaY > 0 then 1 else - 1)
       in applyImmediateScroll
            (s\<lparr>scrollDirection := direction,
               scrollVelocity := scrollIntensity / 100,
               lastScrollTime := now,
               sm_isScrolling := True,
               scrollAccumulator := scrollAccumulator s
                  + direction * scrollIntensity * SCROLL_SENSITIVITY * 0.15\<rparr>))"

subsection \<open>\<open>PathRenderer.createDottedPath\<close>\<close>

datatype object_kind =
    Dot nat
  | MilestoneText
  | AgentBox
  | VariousShape
  | BreakableCube
  | DecorativeShape
  | SplineObject
  | SideShapeLeft
  | SideShapeRight

datatype scene_group = DotsGroup | CardsGroup | TextGroup

text \<open>One object added to a group for a row: its kind, the group, the row index, the x
  coordinate the renderer sets (for objects built by \<open>ShapeManager\<close>: the \<open>curveOffset\<close>
  handed over), the y coordinate the renderer assigns, and the row's \<open>distance\<close>.\<close>

record SceneObject =
  obj_kind :: object_kind
  obj_group :: scene_group
  globalRowIndex :: int
  obj_x :: real
  obj_y :: real
  obj_distance :: real

datatype scene_item = RowItem SceneObject | StartText

definition visibleRange :: int where "visibleRange = 30"
definition scrollThreshold :: real where "scrollThreshold = 0.1"

definition hasScrollStarted :: "real \<Rightarrow> bool" where
  "hasScrollStarted pos = (pos > scrollThreshold)"

definition screenWidth :: real where
  "screenWidth = 2 * tan ((75 * pi / 180) / 2) * 25"

definition smoothStep :: "real \<Rightarrow> real" where
  "smoothStep t = t * t * t * (t * (t * 6 - 15) + 10)"

definition calculateRoundedCurve :: "real \<Rightarrow> int \<Rightarrow> real" where
  "calculateRoundedCurve pos row =
    (if \<not> hasScrollStarted pos then 0
     else
       let adjustedRowIndex = real_of_int row - scrollThreshold;
           helixRadius = screenWidth * 0.25;
           helixSpeed = 0.1;
           angle = max 0 adjustedRowIndex * helixSpeed;
           xOffset = cos angle * helixRadius;
           secondaryWave = sin (angle * 2) * (screenWidth * 0.05);
           tertiaryWave = cos (angle * 3) * (screenWidth * 0.02);
           helixOffset = xOffset + secondaryWave + tertiaryWave;
           organicVariation = sin (adjustedRowIndex * 0.015) * (screenWidth * 0.01)
                            + cos (adjustedRowIndex * 0.025) * (screenWidth * 0.005);
           progress = min 1 (max 0 adjustedRowIndex / 10);
           easedProgress = smoothStep progress
       in helixOffset * easedProgress + organicVariation)"

definition calculateHelixElevation :: "real \<Rightarrow> int \<Rightarrow> real" where
  "calculateHelixElevation pos row =
    (if \<not> hasScrollStarted pos then 0.01
     else
       let adjustedRowIndex = real_of_int row - scrollThreshold;
           elevationAmplitude = 3;
           elevationSpeed = 0.15;
           elevationAngle = max 0 adjustedRowIndex * elevationSpeed;
           mainElevation = sin elevationAngle * elevationAmplitude;
           secondaryElevation = cos (elevationAngle * 2) * (elevationAmplitude * 0.3);
           organicVariation = sin (adjustedRowIndex * 0.02) * 0.5;
           progress = min 1 (max 0 adjustedRowIndex / 10);
           easedProgress = smoothStep progress;
           baseHeight = 0.01
       in baseHeight + (mainElevation + secondaryElevation + organicVariation) * easedProgress)"

text \<open>The body of the row loop for offset \<open>i\<close>: the objects added, in the order of the
  source.\<close>

definition rowObjects :: "real \<Rightarrow> int \<Rightarrow> SceneObject list" where
  "rowObjects pos i =
    (let row = \<lfloor>pos\<rfloor> + i in
     if row < 0 then []
     else
       let distance = real_of_int i * 8;
           started = hasScrollStarted pos;
           curveOffset = (if started then calculateRoundedCurve pos row else 0);
           elevation = (if started then calculateHelixElevation pos row else 0.01);
           mk = (\<lambda>k g x y. \<lparr>obj_kind = k, obj_group = g, globalRowIndex = row, obj_x = x,
                              obj_y = y, obj_distance = distance\<rparr>);
           horizontalOffset = screenWidth * 0.35
       in map (\<lambda>col. mk (Dot col) DotsGroup
                 ((real col / 5) * screenWidth - (screenWidth / 2) + curveOffset) elevation)
            [0..<6]
          @ (if row > 0 \<and> row mod 40 = 0 \<and> started
             then [mk MilestoneText TextGroup curveOffset elevation] else [])
          @ (if row > 0 \<and> row mod 60 = 0 \<and> started
             then [mk AgentBox CardsGroup curveOffset elevation] else [])
          @ (if row > 0 \<and> row mod 30 = 0 \<and> row mod 120 \<noteq> 0 \<and> started
             then [mk VariousShape CardsGroup curveOffset elevation] else [])
          @ (if row > 0 \<and> row mod 100 = 0 \<and> started
             then [mk BreakableCube CardsGroup (curveOffset - screenWidth * 0.22) elevation,
                   mk BreakableCube CardsGroup (curveOffset + screenWidth * 0.22) elevation]
             else [])
          @ (if row > 0 \<and> row mod 16 = 0 \<and> row mod 30 \<noteq> 0 \<and> started
             then [mk DecorativeShape CardsGroup curveOffset elevation] else [])
          @ (if row > 0 \<and> row mod 90 = 0 \<and> started
             then [mk SplineObject CardsGroup curveOffset (elevation + 2)] else [])
          @ (if row > 0 \<and> row mod 40 = 0 \<and> started
             then [mk SideShapeLeft CardsGroup (curveOffset - horizontalOffset) (elevation + 2),
                   mk SideShapeRight CardsGroup (curveOffset + horizontalOffset) (elevation + 2)]
             else []))"

text \<open>\<open>createDottedPath\<close> at position \<open>pos\<close>: nothing when one of the three group
  references is \<open>null\<close>; otherwise the groups are cleared and refilled by the loop
  \<open>for (i = -visibleRange; i < visibleRange; i++)\<close>, and the start text is added last.\<close>

definition createDottedPath :: "bool \<Rightarrow> real \<Rightarrow> scene_item list option" where
  "createDottedPath groupRefs pos =
    (if \<not> groupRefs then None
     else Some (map RowItem (concat (map (rowObjects pos) [- visibleRange..visibleRange - 1]))
                @ [StartText]))"

text \<open>The rows at which a rebuild emits an object of a given kind.\<close>

definition emittedRows :: "object_kind \<Rightarrow> scene_item list option \<Rightarrow> int list" where
  "emittedRows k r =
    (case r of
       None \<Rightarrow> []
     | Some items \<Rightarrow>
         concat (map (\<lambda>it. case it of
                        RowItem ob \<Rightarrow> (if obj_kind ob = k then [globalRowIndex ob] else [])
                      | StartText \<Rightarrow> []) items))"

subsection \<open>Vocabulary for the magnetic pull\<close>

text \<open>The pull of one section on a scroller at \<open>currentPos\<close>: the strength
  \<open>(magnetism / 100) * (1 - distance / snapRadius)\<close>, signed toward the section, times the
  constant 0.02 of \<open>applyMagneticForces\<close>.\<close>

definition magneticForce :: "real \<Rightarrow> ScrollSection \<Rightarrow> real" where
  "magneticForce currentPos section =
     sgn (real_of_int (sec_position section) - currentPos)
     * ((magnetism section / 100)
        * (1 - \<bar>real_of_int (sec_position section) - currentPos\<bar> / snapRadius))
     * 0.02"

text \<open>The sections that pull: farther than 0.5 and at most \<open>snapRadius\<close> away.\<close>

definition inPullBand :: "real \<Rightarrow> ScrollSection \<Rightarrow> bool" where
  "inPullBand currentPos section =
     (0.5 < \<bar>real_of_int (sec_position section) - currentPos\<bar>
      \<and> \<bar>real_of_int (sec_position section) - currentPos\<bar> \<le> snapRadius)"

subsection \<open>Vocabulary for the record of snap invocations\<close>

text \<open>A handler appends to the record of snap invocations only sections of the map that
  are agents or have magnetism at least 55.\<close>

definition goodCalls :: "Scroller \<Rightarrow> Scroller \<Rightarrow> bool" where
  "goodCalls s h \<longleftrightarrow>
     (\<exists>ts. snapCalls h = snapCalls s @ ts
        \<and> list_all (\<lambda>t. t \<in> set (sections s) \<and> (sec_type t = agent \<or> magnetism t \<ge> 55)) ts)"

subsection \<open>Invariants of runs\<close>

text \<open>The position, every section position and the end value of the current tween are
  non-negative.\<close>

definition posInv :: "Scroller \<Rightarrow> bool" where
  "posInv s \<longleftrightarrow>
     0 \<le> positionRef s
     \<and> list_all (\<lambda>t. 0 \<le> sec_position t) (sections s)
     \<and> (case currentTween s of None \<Rightarrow> True | Some tw \<Rightarrow> 0 \<le> tween_current tw)"

text \<open>The tween library runs at most one tween on the position, and it is the one the
  scroller holds in \<open>currentTween\<close>.\<close>

definition tweenInv :: "Scroller \<Rightarrow> bool" where
  "tweenInv s \<longleftrightarrow>
     (activeTweens s = [] \<or> map Some (activeTweens s) = [currentTween s])"

text \<open>Without a tween library the snapping flag is never left set.\<close>

definition idleInv :: "Scroller \<Rightarrow> bool" where
  "idleInv s \<longleftrightarrow> gsap s \<or> \<not> isSnapping s"

subsection \<open>Vocabulary for coasting\<close>

text \<open>Magnetism is absent at a state when no section lies in the pull band of its
  position.\<close>

definition pullFree :: "Scroller \<Rightarrow> bool" where
  "pullFree s \<longleftrightarrow> filter (inPullBand (positionRef s)) (sections s) = []"

text \<open>A sequence of physics frames at the times \<open>ts\<close> coasts from \<open>s\<close> when at the start
  of every frame the loop is running, no snap is in flight, the pending impulse is below
  the threshold at which it is folded in, magnetism is absent, and the clock has not gone
  backwards.\<close>

fun coasting :: "int list \<Rightarrow> Scroller \<Rightarrow> bool" where
  "coasting [] s = True"
| "coasting (now # ts) s =
     (\<not> isPhysicsPaused s \<and> \<not> isSnapping s \<and> \<bar>inputAccumulator s\<bar> \<le> 0.001
      \<and> pullFree s \<and> lastUpdateTime s \<le> now \<and> coasting ts (updatePhysics now s))"

subsection \<open>Vocabulary for a snap in flight\<close>

text \<open>The events that leave a running snap tween running: every event but a
  single-finger touch start (whose handler kills the tween) and the tween's own
  completion.\<close>

fun keepsTween :: "event \<Rightarrow> bool" where
  "keepsTween (TouchStart touches clientY now) = (touches \<noteq> 1)"
| "keepsTween TweenComplete = False"
| "keepsTween _ = True"

text \<open>The snap tween \<open>tw\<close> is in flight: the flag is set, the scroller holds the tween and
  the tween library is running it.\<close>

definition inFlight :: "GSAPTween \<Rightarrow> Scroller \<Rightarrow> bool" where
  "inFlight tw s \<longleftrightarrow> isSnapping s \<and> currentTween s = Some tw \<and> tw \<in> set (activeTweens s)"

text \<open>A sequence of wheel events (modifier flag, \<open>deltaY\<close>, time) on the smooth
  scroller.\<close>

definition sm_wheels :: "(bool \<times> real \<times> int) list \<Rightarrow> SmoothScroller \<Rightarrow> SmoothScroller" where
  "sm_wheels ws s = fold (\<lambda>(ctrlOrMeta, deltaY, now). sm_handleWheel ctrlOrMeta deltaY now) ws s"

section \<open>Properties of the section map\<close>

lemma sectionAt_position: "sectionAt p = Some s \<Longrightarrow> sec_position s = p"
  by (auto simp: sectionAt_def split: if_splits)

lemma sectionAt_type: "sectionAt p = Some s \<Longrightarrow> spacingType p = Some (sec_type s)"
  by (auto simp: sectionAt_def spacingType_def mod_eq_0_iff_dvd split: if_splits)

lemma sectionAt_None: "sectionAt p = None \<longleftrightarrow> spacingType p = None"
  by (auto simp: sectionAt_def spacingType_def mod_eq_0_iff_dvd split: if_splits)

lemma map_filter_positions:
  "map sec_position (List.map_filter sectionAt ps) = filter (\<lambda>p. sectionAt p \<noteq> None) ps"
  by (induction ps) (auto simp: List.map_filter_simps sectionAt_position split: option.splits)

lemma generateSections_unsorted:
  "generateSections = List.map_filter sectionAt [0..3000]"
  unfolding generateSections_def
  by (rule sort_key_id_if_sorted) (simp add: map_filter_positions sorted_wrt_filter)

lemma positions_generateSections:
  "map sec_position generateSections = filter (\<lambda>p. spacingType p \<noteq> None) [0..3000]"
  by (simp add: generateSections_unsorted map_filter_positions sectionAt_None)

lemma set_generateSections:
  "set generateSections = {s. \<exists>p. 0 \<le> p \<and> p \<le> 3000 \<and> sectionAt p = Some s}"
  by (force simp: generateSections_unsorted List.map_filter_def)

lemma count_by_key:
  "length (filter (\<lambda>s. f s = p) xs) = length (filter (\<lambda>q. q = p) (map f xs))"
  by (induction xs) auto

lemma count_in_distinct:
  "distinct ps \<Longrightarrow> length (filter (\<lambda>q. q = p) ps) = (if p \<in> set ps then 1 else 0)"
  by (induction ps) auto

lemma count_generateSections:
  "length (filter (\<lambda>s. sec_position s = p) generateSections) =
     (if 0 \<le> p \<and> p \<le> 3000 \<and> spacingType p \<noteq> None then 1 else 0)"
proof -
  let ?ps = "filter (\<lambda>p. spacingType p \<noteq> None) [0..3000]"
  have "length (filter (\<lambda>s. sec_position s = p) generateSections) =
          length (filter (\<lambda>q. q = p) ?ps)"
    by (simp only: count_by_key [of sec_position p generateSections] positions_generateSections)
  also have "\<dots> = (if p \<in> set ?ps then 1 else 0)"
    by (rule count_in_distinct) simp
  also have "\<dots> = (if 0 \<le> p \<and> p \<le> 3000 \<and> spacingType p \<noteq> None then 1 else 0)"
    by auto
  finally show ?thesis .
qed

lemma strict_sorted_generateSections:
  "sorted_wrt (<) (map sec_position generateSections)"
  by (simp only: positions_generateSections) (simp add: sorted_wrt_filter)

lemma type_generateSections:
  "s \<in> set generateSections \<Longrightarrow> spacingType (sec_position s) = Some (sec_type s)"
  by (auto simp: set_generateSections dest: sectionAt_type sectionAt_position)

text \<open>The same facts for the table of \<open>SmoothSectionScroller\<close>.\<close>

lemma smoothSectionAt_position: "smoothSectionAt p = Some c \<Longrightarrow> cfg_position c = p"
  by (auto simp: smoothSectionAt_def split: if_splits)

lemma smoothSectionAt_type:
  "smoothSectionAt p = Some c \<Longrightarrow> spacingType p = Some (cfg_type c) \<and> cfg_type c \<noteq> micro"
  by (auto simp: smoothSectionAt_def spacingType_def mod_eq_0_iff_dvd AGENT_SPACING_def
      MILESTONE_SPACING_def SHAPE_SPACING_def DECORATIVE_SPACING_def split: if_splits)

lemma smoothSectionAt_None:
  "smoothSectionAt p = None \<longleftrightarrow> p \<le> 0 \<or> spacingType p = None \<or> spacingType p = Some micro"
  by (auto simp: smoothSectionAt_def spacingType_def mod_eq_0_iff_dvd AGENT_SPACING_def
      MILESTONE_SPACING_def SHAPE_SPACING_def DECORATIVE_SPACING_def split: if_splits)

lemma smooth_map_filter_positions:
  "map cfg_position (List.map_filter smoothSectionAt ps) =
     filter (\<lambda>p. smoothSectionAt p \<noteq> None) ps"
  by (induction ps)
     (auto simp: List.map_filter_simps smoothSectionAt_position split: option.splits)

lemma smoothGenerateSections_unsorted:
  "smoothGenerateSections = List.map_filter smoothSectionAt [0..2000]"
  unfolding smoothGenerateSections_def
  by (rule sort_key_id_if_sorted) (simp add: smooth_map_filter_positions sorted_wrt_filter)

lemma positions_smoothGenerateSections:
  "map cfg_position smoothGenerateSections =
     filter (\<lambda>p. smoothSectionAt p \<noteq> None) [0..2000]"
  by (simp add: smoothGenerateSections_unsorted smooth_map_filter_positions)

lemma set_smoothGenerateSections:
  "set smoothGenerateSections = {c. \<exists>p. 0 \<le> p \<and> p \<le> 2000 \<and> smoothSectionAt p = Some c}"
  by (force simp: smoothGenerateSections_unsorted List.map_filter_def)

lemma count_smoothGenerateSections:
  "length (filter (\<lambda>c. cfg_position c = p) smoothGenerateSections) =
     (if 1 \<le> p \<and> p \<le> 2000 \<and> spacingType p \<noteq> None \<and> spacingType p \<noteq> Some micro
      then 1 else 0)"
proof -
  let ?ps = "filter (\<lambda>p. smoothSectionAt p \<noteq> None) [0..2000]"
  have "length (filter (\<lambda>c. cfg_position c = p) smoothGenerateSections) =
          length (filter (\<lambda>q. q = p) ?ps)"
    by (simp only: count_by_key [of cfg_position p smoothGenerateSections]
        positions_smoothGenerateSections)
  also have "\<dots> = (if p \<in> set ?ps then 1 else 0)"
    by (rule count_in_distinct) simp
  also have "\<dots> = (if 1 \<le> p \<and> p \<le> 2000 \<and> spacingType p \<noteq> None
                         \<and> spacingType p \<noteq> Some micro then 1 else 0)"
    by (auto simp: smoothSectionAt_None)
  finally show ?thesis .
qed

lemma strict_sorted_smoothGenerateSections:
  "sorted_wrt (<) (map cfg_position smoothGenerateSections)"
  by (simp only: positions_smoothGenerateSections) (simp add: sorted_wrt_filter)

lemma type_smoothGenerateSections:
  "c \<in> set smoothGenerateSections \<Longrightarrow> spacingType (cfg_position c) = Some (cfg_type c)"
  by (auto simp: set_smoothGenerateSections dest: smoothSectionAt_type smoothSectionAt_position)

section \<open>The section map is sparse\<close>

text \<open>
  C3, as stated, asks for exactly one section at every integer position up to the horizon.
  Position 1 is divisible by none of 60, 40, 15, 8 and 3, so the generator pushes nothing
  for it.
\<close>

theorem generateSections_gap_at_1:
  "length (filter (\<lambda>s. sec_position s = 1) generateSections) \<noteq> 1"
  by (simp add: count_generateSections spacingType_def)

text \<open>
  C3 (amended). \<open>generateSections\<close> holds at most one section per integer position: exactly
  one at every position of \<open>0..3000\<close> that one of the spacings 60, 40, 15, 8, 3 divides, and
  none anywhere else. The type of each section is the first of agent, milestone, shape,
  decorative, micro whose spacing divides its position, and the sequence is strictly
  ascending in position. The table of \<open>SmoothSectionScroller\<close> has the same shape over
  \<open>1..2000\<close>, without the micro tier.
\<close>

theorem generateSections_priority_sorted:
  "length (filter (\<lambda>s. sec_position s = p) generateSections) =
     (if 0 \<le> p \<and> p \<le> 3000 \<and> spacingType p \<noteq> None then 1 else 0)
   \<and> (s \<in> set generateSections \<longrightarrow> spacingType (sec_position s) = Some (sec_type s))
   \<and> sorted_wrt (<) (map sec_position generateSections)
   \<and> length (filter (\<lambda>c. cfg_position c = p) smoothGenerateSections) =
     (if 1 \<le> p \<and> p \<le> 2000 \<and> spacingType p \<noteq> None \<and> spacingType p \<noteq> Some micro
      then 1 else 0)
   \<and> (c \<in> set smoothGenerateSections \<longrightarrow> spacingType (cfg_position c) = Some (cfg_type c))
   \<and> sorted_wrt (<) (map cfg_position smoothGenerateSections)"
  using count_generateSections [of p] type_generateSections [of s]
    strict_sorted_generateSections count_smoothGenerateSections [of p]
    type_smoothGenerateSections [of c] strict_sorted_smoothGenerateSections
  by blast

lemma agent120_generated:
  "\<lparr>sec_position = 120, sec_type = agent, magnetism = 100, snapDuration = 2\<rparr>
     \<in> set generateSections"
  unfolding set_generateSections
  by (intro CollectI exI [of _ 120]) (simp add: sectionAt_def)

lemma milestone40_smooth_generated:
  "\<lparr>cfg_position = 40, cfg_type = milestone, priority = 80\<rparr> \<in> set smoothGenerateSections"
  unfolding set_smoothGenerateSections
  by (intro CollectI exI [of _ 40])
     (simp add: smoothSectionAt_def AGENT_SPACING_def MILESTONE_SPACING_def)

theorem generateSections_priority_sorted_witness:
  "\<lparr>sec_position = 120, sec_type = agent, magnetism = 100, snapDuration = 2\<rparr>
     \<in> set generateSections
   \<and> \<lparr>cfg_position = 40, cfg_type = milestone, priority = 80\<rparr> \<in> set smoothGenerateSections
   \<and> length (filter (\<lambda>s. sec_position s = 120) generateSections) = 1
   \<and> spacingType 120 = Some agent
   \<and> length (filter (\<lambda>c. cfg_position c = 120) smoothGenerateSections) = 1
   \<and> spacingType 40 = Some milestone"
  using generateSections_priority_sorted
    [of 120 "\<lparr>sec_position = 120, sec_type = agent, magnetism = 100, snapDuration = 2\<rparr>"
        "\<lparr>cfg_position = 40, cfg_type = milestone, priority = 80\<rparr>"]
    agent120_generated milestone40_smooth_generated
  by (simp add: spacingType_def)

section \<open>The scene window\<close>

lemma emittedRows_items:
  "emittedRows k (Some (map RowItem xs @ [StartText])) =
     map globalRowIndex (filter (\<lambda>ob. obj_kind ob = k) xs)"
  by (induction xs) (simp_all add: emittedRows_def)

lemma createDottedPath_Some:
  "createDottedPath True pos =
     Some (map RowItem (concat (map (rowObjects pos) [- visibleRange..visibleRange - 1]))
           @ [StartText])"
  by (simp only: createDottedPath_def not_True_eq_False if_False)

lemma emittedRows_kind:
  "emittedRows k (createDottedPath True pos) =
     concat (map (\<lambda>i. map globalRowIndex (filter (\<lambda>ob. obj_kind ob = k) (rowObjects pos i)))
       [- visibleRange..visibleRange - 1])"
  by (simp only: createDottedPath_Some emittedRows_items)
     (simp add: filter_concat map_concat o_def)

lemma milestone_rows_of_row:
  "map globalRowIndex (filter (\<lambda>ob. obj_kind ob = MilestoneText) (rowObjects pos i)) =
     (if 0 < \<lfloor>pos\<rfloor> + i \<and> (\<lfloor>pos\<rfloor> + i) mod 40 = 0 \<and> hasScrollStarted pos
      then [\<lfloor>pos\<rfloor> + i] else [])"
  by (simp add: rowObjects_def Let_def filter_map o_def)

lemma agent_rows_of_row:
  "map globalRowIndex (filter (\<lambda>ob. obj_kind ob = AgentBox) (rowObjects pos i)) =
     (if 0 < \<lfloor>pos\<rfloor> + i \<and> (\<lfloor>pos\<rfloor> + i) mod 60 = 0 \<and> hasScrollStarted pos
      then [\<lfloor>pos\<rfloor> + i] else [])"
  by (simp add: rowObjects_def Let_def filter_map o_def)

lemma spline_rows_of_row:
  "map globalRowIndex (filter (\<lambda>ob. obj_kind ob = SplineObject) (rowObjects pos i)) =
     (if 0 < \<lfloor>pos\<rfloor> + i \<and> (\<lfloor>pos\<rfloor> + i) mod 90 = 0 \<and> hasScrollStarted pos
      then [\<lfloor>pos\<rfloor> + i] else [])"
  by (simp add: rowObjects_def Let_def filter_map o_def)

lemma map_add_upto: "map (\<lambda>i. b + i) [l..u] = [b + l..b + (u::int)]"
proof (induction l u rule: upto.induct)
  case (1 i j)
  then show ?case
    by (cases "i \<le> j") (simp_all add: upto_rec1 add.assoc)
qed

lemma concat_rows_filter:
  "concat (map (\<lambda>i. if P (b + i) then [b + i] else []) xs) = filter P (map (\<lambda>i. b + i) xs)"
  by (induction xs) auto

text \<open>Once scrolling has started, the milestone texts, agent boxes and feature objects of
  a rebuild sit at the positive multiples of 40, 60 and 90 inside the window
  \<open>[\<lfloor>pos\<rfloor> - 30, \<lfloor>pos\<rfloor> + 30)\<close>, each decided on its own modulus.\<close>

lemma milestone_rows:
  "hasScrollStarted pos \<Longrightarrow>
   emittedRows MilestoneText (createDottedPath True pos) =
     filter (\<lambda>r. 0 < r \<and> r mod 40 = 0) [\<lfloor>pos\<rfloor> - visibleRange..\<lfloor>pos\<rfloor> + visibleRange - 1]"
  using concat_rows_filter
    [of "\<lambda>r. 0 < r \<and> r mod 40 = 0" "\<lfloor>pos\<rfloor>" "[- visibleRange..visibleRange - 1]"]
  by (simp add: emittedRows_kind milestone_rows_of_row map_add_upto add_diff_eq)

lemma agent_rows:
  "hasScrollStarted pos \<Longrightarrow>
   emittedRows AgentBox (createDottedPath True pos) =
     filter (\<lambda>r. 0 < r \<and> r mod 60 = 0) [\<lfloor>pos\<rfloor> - visibleRange..\<lfloor>pos\<rfloor> + visibleRange - 1]"
  using concat_rows_filter
    [of "\<lambda>r. 0 < r \<and> r mod 60 = 0" "\<lfloor>pos\<rfloor>" "[- visibleRange..visibleRange - 1]"]
  by (simp add: emittedRows_kind agent_rows_of_row map_add_upto add_diff_eq)

lemma spline_rows:
  "hasScrollStarted pos \<Longrightarrow>
   emittedRows SplineObject (createDottedPath True pos) =
     filter (\<lambda>r. 0 < r \<and> r mod 90 = 0) [\<lfloor>pos\<rfloor> - visibleRange..\<lfloor>pos\<rfloor> + visibleRange - 1]"
  using concat_rows_filter
    [of "\<lambda>r. 0 < r \<and> r mod 90 = 0" "\<lfloor>pos\<rfloor>" "[- visibleRange..visibleRange - 1]"]
  by (simp add: emittedRows_kind spline_rows_of_row map_add_upto add_diff_eq)

lemma started_90: "hasScrollStarted 90"
  by (simp add: hasScrollStarted_def scrollThreshold_def)

text \<open>
  C8, as stated, expects a milestone entry at row 40 from a rebuild at position 90. The
  window of that rebuild is rows 60 to 119, so row 40 is not visited at all.
\<close>

theorem rebuild_90_no_milestone_at_40:
  "40 \<notin> set (emittedRows MilestoneText (createDottedPath True 90))"
  by (simp add: milestone_rows started_90 visibleRange_def)

text \<open>
  C8 (amended). A rebuild at position 90 with visibility radius 30 covers rows 60 to 119.
  It emits the every-90 feature object at row 90 only, a milestone entry at row 80 only
  (row 40 lies outside the window, and 60 is not a multiple of 40), and an agent panel at
  row 60 only.
\<close>

theorem rebuild_90_rows:
  "emittedRows SplineObject (createDottedPath True 90) = [90]
   \<and> emittedRows MilestoneText (createDottedPath True 90) = [80]
   \<and> emittedRows AgentBox (createDottedPath True 90) = [60]"
  by (simp add: spline_rows milestone_rows agent_rows started_90 visibleRange_def)

section \<open>Magnetic pull\<close>

lemma fold_magneticStep:
  "fold (magneticStep c) xs v = v + sum_list (map (magneticForce c) (filter (inPullBand c) xs))"
  by (induction xs arbitrary: v)
     (simp_all add: magneticStep_def magneticForce_def inPullBand_def Let_def)

lemma filter_near_band:
  "filter (\<lambda>x. \<bar>real_of_int (sec_position x) - c\<bar> \<le> snapRadius \<and> inPullBand c x) xs
     = filter (inPullBand c) xs"
  by (induction xs) (auto simp: inPullBand_def)

lemma applyMagneticForces_closed_form:
  "applyMagneticForces s =
     (if \<bar>velocity s\<bar> > 5 then s
      else s\<lparr>velocity := velocity s
             + sum_list (map (magneticForce (positionRef s))
                 (filter (inPullBand (positionRef s)) (sections s)))\<rparr>)"
  by (simp add: applyMagneticForces_def Let_def fold_magneticStep filter_near_band)

text \<open>
  C6 (amended). The magnetic pull is applied only when \<open>|velocity| \<le> 5\<close>. Then every
  section whose distance \<open>d\<close> from the current position satisfies \<open>0.5 < d \<le> snapRadius\<close>
  adds \<open>0.02 * (magnetism / 100) * (1 - d / snapRadius)\<close>, signed toward the section, to the
  velocity, and the contributions of all such sections accumulate. Sections at most 0.5
  away add nothing. No other field changes.
\<close>

theorem applyMagneticForces_sum:
  "applyMagneticForces s =
     (if \<bar>velocity s\<bar> > 5 then s
      else s\<lparr>velocity := velocity s
             + sum_list (map (magneticForce (positionRef s))
                 (filter (inPullBand (positionRef s)) (sections s)))\<rparr>)"
  by (simp add: applyMagneticForces_def Let_def fold_magneticStep filter_near_band)

lemma sum_list_filter_split:
  "sum_list (map f (filter P xs)) =
     sum_list (map f (filter (\<lambda>x. P x \<and> Q x) xs))
     + sum_list (map f (filter (\<lambda>x. P x \<and> \<not> Q x) xs) :: real list)"
  by (induction xs) auto

lemma filter_position_0:
  "filter (\<lambda>x. sec_position x = 0) generateSections =
     [\<lparr>sec_position = 0, sec_type = agent, magnetism = 100, snapDuration = 9 / 5\<rparr>]"
proof -
  let ?sec0 = "\<lparr>sec_position = 0, sec_type = agent, magnetism = 100, snapDuration = 9 / 5\<rparr>"
  have split: "[0..3000] = 0 # [1..3000]"
    by (simp add: upto_rec1)
  have rest: "filter (\<lambda>x. sec_position x = 0) (List.map_filter sectionAt [1..3000]) = []"
    using sectionAt_position by (fastforce simp: filter_empty_conv List.map_filter_def)
  have s0: "sectionAt 0 = Some ?sec0"
    by (simp add: sectionAt_def)
  have "generateSections = ?sec0 # List.map_filter sectionAt [1..3000]"
    by (simp only: generateSections_unsorted split List.map_filter_simps s0 option.case)
  then have "filter (\<lambda>x. sec_position x = 0) generateSections =
      filter (\<lambda>x. sec_position x = 0) [?sec0]
      @ filter (\<lambda>x. sec_position x = 0) (List.map_filter sectionAt [1..3000])"
    by (simp only: filter_append [symmetric] append_Cons append_Nil)
  then show ?thesis
    by (simp only: rest) simp
qed

lemma near_not_band_03:
  "(\<bar>real_of_int p - 3/10\<bar> \<le> snapRadius \<and> \<not> (0.5 < \<bar>real_of_int p - 3/10\<bar>
      \<and> \<bar>real_of_int p - 3/10\<bar> \<le> snapRadius)) \<longleftrightarrow> p = 0"
proof (cases "p = 0")
  case True
  then show ?thesis by (simp add: snapRadius_def)
next
  case False
  then consider "p \<ge> 1" | "p \<le> -1" by linarith
  then have "\<bar>real_of_int p - 3/10\<bar> > 0.5"
  proof cases
    case 1
    then have "real_of_int p \<ge> 1" by simp
    then show ?thesis by linarith
  next
    case 2
    then have "real_of_int p \<le> -1" by linarith
    then show ?thesis by linarith
  qed
  with False show ?thesis by auto
qed

text \<open>
  C6, as stated, lets every section within \<open>snapRadius\<close> pull. A freshly built scroller at
  position 0.3 has the agent section 0 at distance 0.3: it is within the radius, its pull
  would be \<open>-0.0198\<close>, and the code leaves it out.
\<close>

theorem magnetism_skips_section_within_half:
  "velocity (applyMagneticForces (newScroller (3/10) True True 0 True True)) \<noteq>
     sum_list (map (magneticForce (3/10))
       (filter (\<lambda>x. \<bar>real_of_int (sec_position x) - 3/10\<bar> \<le> snapRadius) generateSections))"
proof -
  let ?near = "\<lambda>x. \<bar>real_of_int (sec_position x) - 3/10\<bar> \<le> snapRadius"
  have dead: "filter (\<lambda>x. ?near x \<and> \<not> inPullBand (3/10) x) generateSections =
      filter (\<lambda>x. sec_position x = 0) generateSections"
    by (rule filter_cong [OF refl]) (simp only: inPullBand_def near_not_band_03)
  have "sum_list (map (magneticForce (3/10)) (filter ?near generateSections)) =
      sum_list (map (magneticForce (3/10)) (filter (inPullBand (3/10)) generateSections))
      + magneticForce (3/10)
          \<lparr>sec_position = 0, sec_type = agent, magnetism = 100, snapDuration = 9 / 5\<rparr>"
    by (simp only: sum_list_filter_split [of _ ?near _ "inPullBand (3/10)"] dead
        filter_position_0 filter_near_band) simp
  moreover have "magneticForce (3/10)
      \<lparr>sec_position = 0, sec_type = agent, magnetism = 100, snapDuration = 9 / 5\<rparr> \<noteq> 0"
    by (simp add: magneticForce_def snapRadius_def)
  moreover have "velocity (applyMagneticForces (newScroller (3/10) True True 0 True True)) =
      sum_list (map (magneticForce (3/10)) (filter (inPullBand (3/10)) generateSections))"
    by (simp add: applyMagneticForces_closed_form newScroller_def)
  ultimately show ?thesis by simp
qed

section \<open>What each handler leaves alone\<close>

lemma emit_fields [simp]:
  "positionRef (emit e s) = positionRef s"
  "velocity (emit e s) = velocity s"
  "isSnapping (emit e s) = isSnapping s"
  "isScrolling (emit e s) = isScrolling s"
  "sections (emit e s) = sections s"
  "gsap (emit e s) = gsap s"
  "currentTween (emit e s) = currentTween s"
  "activeTweens (emit e s) = activeTweens s"
  "snapCalls (emit e s) = snapCalls s"
  "inputAccumulator (emit e s) = inputAccumulator s"
  "isPhysicsPaused (emit e s) = isPhysicsPaused s"
  "lastUpdateTime (emit e s) = lastUpdateTime s"
  "effects (emit e s) = effects s @ [e]"
  by (simp_all add: emit_def)

lemma updateScene_fields [simp]:
  "positionRef (updateScene s) = positionRef s"
  "velocity (updateScene s) = velocity s"
  "isSnapping (updateScene s) = isSnapping s"
  "isScrolling (updateScene s) = isScrolling s"
  "sections (updateScene s) = sections s"
  "gsap (updateScene s) = gsap s"
  "currentTween (updateScene s) = currentTween s"
  "activeTweens (updateScene s) = activeTweens s"
  "snapCalls (updateScene s) = snapCalls s"
  "inputAccumulator (updateScene s) = inputAccumulator s"
  "isPhysicsPaused (updateScene s) = isPhysicsPaused s"
  "lastUpdateTime (updateScene s) = lastUpdateTime s"
  by (simp_all add: updateScene_def Let_def playTransitionSound_def emit_def)

lemma killAllTweens_fields [simp]:
  "positionRef (killAllTweens s) = positionRef s"
  "velocity (killAllTweens s) = velocity s"
  "isSnapping (killAllTweens s) = isSnapping s"
  "isScrolling (killAllTweens s) = isScrolling s"
  "sections (killAllTweens s) = sections s"
  "gsap (killAllTweens s) = gsap s"
  "snapCalls (killAllTweens s) = snapCalls s"
  "inputAccumulator (killAllTweens s) = inputAccumulator s"
  "isPhysicsPaused (killAllTweens s) = isPhysicsPaused s"
  "lastUpdateTime (killAllTweens s) = lastUpdateTime s"
  by (simp_all add: killAllTweens_def emit_def split: option.splits)

lemma killAllTweens_currentTween:
  "currentTween (killAllTweens s) = (if gsap s then None else currentTween s)"
  by (simp add: killAllTweens_def emit_def split: option.splits)

lemma snapToSection_snapCalls [simp]:
  "snapCalls (snapToSection t s) = snapCalls s @ [t]"
  by (simp add: snapToSection_def Let_def playTransitionSound_def)

lemma snapToSection_sections [simp]: "sections (snapToSection t s) = sections s"
  by (simp add: snapToSection_def Let_def playTransitionSound_def)

lemma snapToSection_gsap [simp]: "gsap (snapToSection t s) = gsap s"
  by (simp add: snapToSection_def Let_def playTransitionSound_def)

lemma snapToSection_positionRef:
  "positionRef (snapToSection t s) =
     (if isSnapping s \<or> gsap s then positionRef s else real_of_int (sec_position t))"
  by (simp add: snapToSection_def Let_def playTransitionSound_def)

lemma snapToSection_isSnapping:
  "isSnapping (snapToSection t s) = (isSnapping s \<or> gsap s)"
  by (simp add: snapToSection_def Let_def playTransitionSound_def)

lemma snapToSection_velocity:
  "velocity (snapToSection t s) = (if isSnapping s then velocity s else 0)"
  by (simp add: snapToSection_def Let_def playTransitionSound_def)

lemma snapToSection_currentTween:
  "currentTween (snapToSection t s) =
     (if isSnapping s \<or> \<not> gsap s then currentTween s
      else Some \<lparr>tween_current = real_of_int (sec_position t),
             tween_duration = min (snapDuration t
                 * (1 + \<bar>real_of_int (sec_position t) - positionRef s\<bar> / 100))
               (snapDuration t * 2),
             tween_ease = ''power2.out'', tween_section = t\<rparr>)"
  by (simp add: snapToSection_def Let_def playTransitionSound_def killAllTweens_currentTween)

section \<open>Snap targets come from the section map\<close>

lemma find_SomeD: "List.find P xs = Some x \<Longrightarrow> x \<in> set xs \<and> P x"
  by (induction xs) (auto split: if_splits)

lemma findTargetSection_Some:
  assumes "findTargetSection d ty s = Some t"
  shows "t \<in> set (sections s) \<and> (sec_type t = agent \<or> magnetism t \<ge> 55)"
proof -
  define candidates where "candidates =
    (if ty = SnapAgent then filter (\<lambda>x. sec_type x = agent) (sections s)
     else filter (\<lambda>x. magnetism x \<ge> 55) (sections s))"
  have sub: "x \<in> set candidates \<Longrightarrow>
      x \<in> set (sections s) \<and> (sec_type x = agent \<or> magnetism x \<ge> 55)" for x
    by (cases "ty = SnapAgent") (simp_all add: candidates_def)
  from assms have
    "List.find (\<lambda>x. real_of_int (sec_position x) > positionRef s + 1) candidates = Some t
     \<or> List.find (\<lambda>x. real_of_int (sec_position x) < positionRef s - 1) (rev candidates) = Some t"
    by (cases "d > 0") (simp_all add: findTargetSection_def Let_def candidates_def)
  then have "t \<in> set candidates"
    by (auto dest: find_SomeD)
  then show ?thesis by (rule sub)
qed


lemma findBestSnapTarget_Some:
  assumes "findBestSnapTarget s = Some t"
  shows "t \<in> set (sections s)"
proof -
  define predictedPos where
    "predictedPos = positionRef s + sgn (velocity s) * min (\<bar>velocity s\<bar> * 2) 20"
  define candidates where "candidates =
    filter (\<lambda>x. \<bar>real_of_int (sec_position x) - predictedPos\<bar> \<le> snapRadius * 1.5) (sections s)"
  define scored where
    "scored = map (\<lambda>section. (section, snapScore (positionRef s) predictedPos section)) candidates"
  have unfold: "findBestSnapTarget s =
      (if candidates = [] then None
       else case sort_key (\<lambda>p. - snd p) scored of [] \<Rightarrow> None | p # _ \<Rightarrow> Some (fst p))"
    by (simp only: findBestSnapTarget_def Let_def scored_def candidates_def predictedPos_def)
  from assms obtain p ps where srt: "sort_key (\<lambda>p. - snd p) scored = p # ps" and t: "t = fst p"
    unfolding unfold by (cases "candidates = []"; cases "sort_key (\<lambda>p. - snd p) scored") auto
  have "p \<in> set (sort_key (\<lambda>p. - snd p) scored)"
    by (simp only: srt list.set_intros)
  then have "p \<in> set scored" by (simp only: set_sort)
  then have "fst p \<in> set candidates" by (auto simp: scored_def)
  then show ?thesis by (simp add: t candidates_def)
qed

lemma if_chain4:
  "\<lbrakk>P a1; P a2; P a3; P a4; P n\<rbrakk> \<Longrightarrow>
   P (if c1 then a1 else if c2 then a2 else if c3 then a3 else if c4 then a4 else n)"
  by simp

lemma keyTarget_Some:
  assumes "keyTarget key shiftKey s = Some t"
  shows "t \<in> set (sections s) \<and> (sec_type t = agent \<or> magnetism t \<ge> 55)"
proof -
  let ?ok = "\<lambda>r. r = Some t \<longrightarrow> t \<in> set (sections s) \<and> (sec_type t = agent \<or> magnetism t \<ge> 55)"
  have "?ok (keyTarget key shiftKey s)"
    unfolding keyTarget_def
    by (rule if_chain4 [where P = ?ok]) (use findTargetSection_Some in blast)+
  with assms show ?thesis by blast
qed

lemma clickTarget_Some:
  assumes "clickTarget x w s = Some t"
  shows "t \<in> set (sections s) \<and> (sec_type t = agent \<or> magnetism t \<ge> 55)"
proof -
  let ?ok = "\<lambda>r. r = Some t \<longrightarrow> t \<in> set (sections s) \<and> (sec_type t = agent \<or> magnetism t \<ge> 55)"
  have "?ok (clickTarget x w s)"
    unfolding clickTarget_def
    by (rule if_chain4 [where P = ?ok]) (use findTargetSection_Some in blast)+
  with assms show ?thesis by blast
qed

section \<open>Handlers: either nothing or one snap\<close>

lemma checkForAutoSnap_cases:
  "checkForAutoSnap s = s \<or>
   (\<exists>t. t \<in> set (sections s) \<and> magnetism t \<ge> 55 \<and> \<not> isSnapping s
        \<and> checkForAutoSnap s = snapToSection t s)"
proof (cases "findBestSnapTarget s")
  case None
  then show ?thesis by (simp add: checkForAutoSnap_def Let_def)
next
  case (Some t)
  then have "t \<in> set (sections s)" by (rule findBestSnapTarget_Some)
  with Some show ?thesis by (auto simp: checkForAutoSnap_def Let_def)
qed

lemma handleKeyDown_cases:
  "handleKeyDown key shiftKey s = s \<or>
   (\<exists>t. t \<in> set (sections s) \<and> (sec_type t = agent \<or> magnetism t \<ge> 55) \<and> \<not> isSnapping s
        \<and> handleKeyDown key shiftKey s = snapToSection t s)"
proof (cases "keyTarget key shiftKey s")
  case None
  then show ?thesis by (simp add: handleKeyDown_def)
next
  case (Some t)
  from keyTarget_Some [OF this] Some show ?thesis
    by (cases "isSnapping s") (auto simp: handleKeyDown_def)
qed

lemma handleClick_cases:
  "handleClick x y w s = s \<or>
   (\<exists>t. t \<in> set (sections s) \<and> (sec_type t = agent \<or> magnetism t \<ge> 55) \<and> \<not> isSnapping s
        \<and> handleClick x y w s = snapToSection t s)"
proof (cases "clickTarget x w s")
  case None
  then show ?thesis by (simp add: handleClick_def)
next
  case (Some t)
  from clickTarget_Some [OF this] Some show ?thesis
    by (cases "isSnapping s") (auto simp: handleClick_def)
qed

lemma delayedAutoSnap_cases:
  "delayedAutoSnap s = s \<or>
   (\<exists>t. t \<in> set (sections s) \<and> magnetism t \<ge> 55 \<and> \<not> isSnapping s
        \<and> delayedAutoSnap s = snapToSection t s)"
  using checkForAutoSnap_cases [of s] by (auto simp: delayedAutoSnap_def)

lemma handleWheel_fields [simp]:
  "positionRef (handleWheel c d n s) = positionRef s"
  "isSnapping (handleWheel c d n s) = isSnapping s"
  "sections (handleWheel c d n s) = sections s"
  "gsap (handleWheel c d n s) = gsap s"
  "currentTween (handleWheel c d n s) = currentTween s"
  "activeTweens (handleWheel c d n s) = activeTweens s"
  "snapCalls (handleWheel c d n s) = snapCalls s"
  by (simp_all add: handleWheel_def Let_def)

lemma handleTouchStart_fields [simp]:
  "positionRef (handleTouchStart k y n s) = positionRef s"
  "isSnapping (handleTouchStart k y n s) = isSnapping s"
  "sections (handleTouchStart k y n s) = sections s"
  "gsap (handleTouchStart k y n s) = gsap s"
  "snapCalls (handleTouchStart k y n s) = snapCalls s"
  by (simp_all add: handleTouchStart_def)

lemma handleTouchMove_fields [simp]:
  "positionRef (handleTouchMove k y n s) = positionRef s"
  "isSnapping (handleTouchMove k y n s) = isSnapping s"
  "sections (handleTouchMove k y n s) = sections s"
  "gsap (handleTouchMove k y n s) = gsap s"
  "currentTween (handleTouchMove k y n s) = currentTween s"
  "activeTweens (handleTouchMove k y n s) = activeTweens s"
  "snapCalls (handleTouchMove k y n s) = snapCalls s"
  by (simp_all add: handleTouchMove_def Let_def)

lemma handleTouchEnd_fields [simp]:
  "positionRef (handleTouchEnd s) = positionRef s"
  "isSnapping (handleTouchEnd s) = isSnapping s"
  "sections (handleTouchEnd s) = sections s"
  "gsap (handleTouchEnd s) = gsap s"
  "currentTween (handleTouchEnd s) = currentTween s"
  "activeTweens (handleTouchEnd s) = activeTweens s"
  "snapCalls (handleTouchEnd s) = snapCalls s"
  by (simp_all add: handleTouchEnd_def Let_def)

lemma handleInputEnd_fields [simp]:
  "positionRef (handleInputEnd s) = positionRef s"
  "isSnapping (handleInputEnd s) = isSnapping s"
  "sections (handleInputEnd s) = sections s"
  "gsap (handleInputEnd s) = gsap s"
  "currentTween (handleInputEnd s) = currentTween s"
  "activeTweens (handleInputEnd s) = activeTweens s"
  "snapCalls (handleInputEnd s) = snapCalls s"
  by (simp_all add: handleInputEnd_def)

lemma pause_resume_fields [simp]:
  "positionRef (pausePhysicsLoop s) = positionRef s"
  "isSnapping (pausePhysicsLoop s) = isSnapping s"
  "sections (pausePhysicsLoop s) = sections s"
  "gsap (pausePhysicsLoop s) = gsap s"
  "currentTween (pausePhysicsLoop s) = currentTween s"
  "activeTweens (pausePhysicsLoop s) = activeTweens s"
  "snapCalls (pausePhysicsLoop s) = snapCalls s"
  "positionRef (resumePhysicsLoop s) = positionRef s"
  "isSnapping (resumePhysicsLoop s) = isSnapping s"
  "sections (resumePhysicsLoop s) = sections s"
  "gsap (resumePhysicsLoop s) = gsap s"
  "currentTween (resumePhysicsLoop s) = currentTween s"
  "activeTweens (resumePhysicsLoop s) = activeTweens s"
  "snapCalls (resumePhysicsLoop s) = snapCalls s"
  by (simp_all add: pausePhysicsLoop_def resumePhysicsLoop_def)

lemma applyMagneticForces_fields [simp]:
  "positionRef (applyMagneticForces s) = positionRef s"
  "isSnapping (applyMagneticForces s) = isSnapping s"
  "isScrolling (applyMagneticForces s) = isScrolling s"
  "sections (applyMagneticForces s) = sections s"
  "gsap (applyMagneticForces s) = gsap s"
  "currentTween (applyMagneticForces s) = currentTween s"
  "activeTweens (applyMagneticForces s) = activeTweens s"
  "snapCalls (applyMagneticForces s) = snapCalls s"
  "inputAccumulator (applyMagneticForces s) = inputAccumulator s"
  "isPhysicsPaused (applyMagneticForces s) = isPhysicsPaused s"
  "lastUpdateTime (applyMagneticForces s) = lastUpdateTime s"
  by (simp_all add: applyMagneticForces_def Let_def)

lemma updateMomentum_fields [simp]:
  "positionRef (updateMomentum dt s) = positionRef s"
  "isSnapping (updateMomentum dt s) = isSnapping s"
  "isScrolling (updateMomentum dt s) = isScrolling s"
  "sections (updateMomentum dt s) = sections s"
  "gsap (updateMomentum dt s) = gsap s"
  "currentTween (updateMomentum dt s) = currentTween s"
  "activeTweens (updateMomentum dt s) = activeTweens s"
  "snapCalls (updateMomentum dt s) = snapCalls s"
  "isPhysicsPaused (updateMomentum dt s) = isPhysicsPaused s"
  "lastUpdateTime (updateMomentum dt s) = lastUpdateTime s"
  by (simp_all add: updateMomentum_def Let_def)

lemma updatePosition_fields [simp]:
  "velocity (updatePosition s) = velocity s"
  "isSnapping (updatePosition s) = isSnapping s"
  "isScrolling (updatePosition s) = isScrolling s"
  "sections (updatePosition s) = sections s"
  "gsap (updatePosition s) = gsap s"
  "currentTween (updatePosition s) = currentTween s"
  "activeTweens (updatePosition s) = activeTweens s"
  "snapCalls (updatePosition s) = snapCalls s"
  "inputAccumulator (updatePosition s) = inputAccumulator s"
  "isPhysicsPaused (updatePosition s) = isPhysicsPaused s"
  "lastUpdateTime (updatePosition s) = lastUpdateTime s"
  by (simp_all add: updatePosition_def Let_def)

lemma updatePosition_nonneg: "0 \<le> positionRef s \<Longrightarrow> 0 \<le> positionRef (updatePosition s)"
  by (simp add: updatePosition_def Let_def)

lemma tweenComplete_fields [simp]:
  "sections (tweenComplete s) = sections s"
  "gsap (tweenComplete s) = gsap s"
  "currentTween (tweenComplete s) = currentTween s"
  "snapCalls (tweenComplete s) = snapCalls s"
  by (simp_all add: tweenComplete_def Let_def split: option.splits)

section \<open>Runs and the targets of snaps\<close>

lemma updatePhysics_unfold:
  "updatePhysics now s =
     (if isPhysicsPaused s then s
      else checkForAutoSnap (updatePosition (updateMomentum
             (real_of_int (if now - lastUpdateTime s = 0 then 16 else now - lastUpdateTime s))
             (s\<lparr>lastUpdateTime := now\<rparr>))))"
  by (simp add: updatePhysics_def Let_def)

lemma noop_or_snap:
  assumes "h = s \<or> (\<exists>t. t \<in> set (sections s) \<and> G t \<and> \<not> isSnapping s \<and> h = snapToSection t s)"
    and "Q s"
    and "\<And>t. t \<in> set (sections s) \<Longrightarrow> G t \<Longrightarrow> \<not> isSnapping s \<Longrightarrow> Q (snapToSection t s)"
  shows "Q h"
  using assms by blast

lemma checkForAutoSnap_sections [simp]: "sections (checkForAutoSnap s) = sections s"
  by (rule noop_or_snap [OF checkForAutoSnap_cases]) simp_all

lemma checkForAutoSnap_gsap [simp]: "gsap (checkForAutoSnap s) = gsap s"
  by (rule noop_or_snap [OF checkForAutoSnap_cases]) simp_all

lemma step_sections [simp]: "sections (step e s) = sections s"
proof (cases e)
  case (KeyDown key shiftKey)
  have "sections (handleKeyDown key shiftKey s) = sections s"
    by (rule noop_or_snap [OF handleKeyDown_cases]) simp_all
  with KeyDown show ?thesis by simp
next
  case (Click x y w)
  have "sections (handleClick x y w s) = sections s"
    by (rule noop_or_snap [OF handleClick_cases]) simp_all
  with Click show ?thesis by simp
next
  case (Frame now)
  then show ?thesis by (simp add: updatePhysics_unfold)
next
  case DelayedAutoSnap
  have "sections (delayedAutoSnap s) = sections s"
    by (rule noop_or_snap [OF delayedAutoSnap_cases]) simp_all
  with DelayedAutoSnap show ?thesis by simp
qed simp_all


lemma step_gsap [simp]: "gsap (step e s) = gsap s"
proof (cases e)
  case (KeyDown key shiftKey)
  have "gsap (handleKeyDown key shiftKey s) = gsap s"
    by (rule noop_or_snap [OF handleKeyDown_cases]) simp_all
  with KeyDown show ?thesis by simp
next
  case (Click x y w)
  have "gsap (handleClick x y w s) = gsap s"
    by (rule noop_or_snap [OF handleClick_cases]) simp_all
  with Click show ?thesis by simp
next
  case (Frame now)
  then show ?thesis by (simp add: updatePhysics_unfold)
next
  case DelayedAutoSnap
  have "gsap (delayedAutoSnap s) = gsap s"
    by (rule noop_or_snap [OF delayedAutoSnap_cases]) simp_all
  with DelayedAutoSnap show ?thesis by simp
qed simp_all

lemma run_Nil [simp]: "run [] s = s"
  by (simp add: run_def)

lemma run_Cons [simp]: "run (e # evs) s = run evs (step e s)"
  by (simp add: run_def)

lemma run_append: "run (evs @ evs') s = run evs' (run evs s)"
  by (simp add: run_def)

lemma run_sections [simp]: "sections (run evs s) = sections s"
  by (induction evs arbitrary: s) simp_all

lemma run_gsap [simp]: "gsap (run evs s) = gsap s"
  by (induction evs arbitrary: s) simp_all

lemma goodCalls_same: "snapCalls h = snapCalls s \<Longrightarrow> goodCalls s h"
  by (simp add: goodCalls_def)

lemma goodCalls_snap:
  "t \<in> set (sections s) \<Longrightarrow> sec_type t = agent \<or> magnetism t \<ge> 55
     \<Longrightarrow> goodCalls s (snapToSection t s)"
  by (simp add: goodCalls_def)

lemma goodCalls_trans:
  assumes "goodCalls s h" "goodCalls h k" "sections h = sections s"
  shows "goodCalls s k"
proof -
  from assms(1) obtain ts1 where 1: "snapCalls h = snapCalls s @ ts1"
    and ok1: "list_all (\<lambda>t. t \<in> set (sections s) \<and> (sec_type t = agent \<or> magnetism t \<ge> 55)) ts1"
    unfolding goodCalls_def by blast
  from assms(2,3) obtain ts2 where 2: "snapCalls k = snapCalls h @ ts2"
    and ok2: "list_all (\<lambda>t. t \<in> set (sections s) \<and> (sec_type t = agent \<or> magnetism t \<ge> 55)) ts2"
    unfolding goodCalls_def by auto
  have "snapCalls k = snapCalls s @ (ts1 @ ts2)"
    by (simp add: 1 2)
  moreover have
    "list_all (\<lambda>t. t \<in> set (sections s) \<and> (sec_type t = agent \<or> magnetism t \<ge> 55)) (ts1 @ ts2)"
    using ok1 ok2 by simp
  ultimately show ?thesis unfolding goodCalls_def by blast
qed

lemma checkForAutoSnap_goodCalls: "goodCalls s (checkForAutoSnap s)"
  by (rule noop_or_snap [OF checkForAutoSnap_cases]) (simp_all add: goodCalls_same goodCalls_snap)

lemma step_goodCalls: "goodCalls s (step e s)"
proof (cases e)
  case (KeyDown key shiftKey)
  have "goodCalls s (handleKeyDown key shiftKey s)"
    by (rule noop_or_snap [OF handleKeyDown_cases]) (simp_all add: goodCalls_same goodCalls_snap)
  with KeyDown show ?thesis by simp
next
  case (Click x y w)
  have "goodCalls s (handleClick x y w s)"
    by (rule noop_or_snap [OF handleClick_cases]) (simp_all add: goodCalls_same goodCalls_snap)
  with Click show ?thesis by simp
next
  case (Frame now)
  show ?thesis
  proof (cases "isPhysicsPaused s")
    case True
    with Frame show ?thesis by (simp add: updatePhysics_unfold goodCalls_same)
  next
    case False
    let ?m = "updatePosition (updateMomentum
        (real_of_int (if now - lastUpdateTime s = 0 then 16 else now - lastUpdateTime s))
        (s\<lparr>lastUpdateTime := now\<rparr>))"
    have "goodCalls s ?m" by (rule goodCalls_same) simp
    moreover have "goodCalls ?m (checkForAutoSnap ?m)" by (rule checkForAutoSnap_goodCalls)
    moreover have "sections ?m = sections s" by simp
    ultimately have "goodCalls s (checkForAutoSnap ?m)" by (rule goodCalls_trans)
    with Frame False show ?thesis by (simp add: updatePhysics_unfold)
  qed
next
  case DelayedAutoSnap
  have "goodCalls s (delayedAutoSnap s)"
    by (rule noop_or_snap [OF delayedAutoSnap_cases]) (simp_all add: goodCalls_same goodCalls_snap)
  with DelayedAutoSnap show ?thesis by simp
qed (simp_all add: goodCalls_same)

lemma run_goodCalls: "goodCalls s (run evs s)"
proof (induction evs arbitrary: s)
  case Nil
  show ?case by (simp add: goodCalls_same)
next
  case (Cons e evs)
  have "goodCalls s (step e s)" by (rule step_goodCalls)
  moreover have "goodCalls (step e s) (run evs (step e s))" by (rule Cons.IH)
  moreover have "sections (step e s) = sections s" by simp
  ultimately show ?case unfolding run_Cons by (rule goodCalls_trans)
qed

lemma micro_magnetism:
  "t \<in> set generateSections \<Longrightarrow> sec_type t = micro \<Longrightarrow> magnetism t = 35"
  by (auto simp: set_generateSections sectionAt_def split: if_splits)

text \<open>
  C10. Along every run of a freshly constructed scroller, every invocation of
  \<open>snapToSection\<close>, whether it comes from the auto-snap trigger, a key or a click zone, is
  given a section of the generated map that is an agent or has magnetism at least 55; a
  micro section (magnetism 35) is never a snap target.
\<close>

theorem snap_targets_never_micro:
  assumes "t \<in> set (snapCalls (run evs (newScroller pos pr sm ca am g)))"
  shows "(sec_type t = agent \<or> magnetism t \<ge> 55) \<and> sec_type t \<noteq> micro
         \<and> t \<in> set generateSections"
proof -
  let ?s = "newScroller pos pr sm ca am g"
  have "goodCalls ?s (run evs ?s)" by (rule run_goodCalls)
  then obtain ts where "snapCalls (run evs ?s) = snapCalls ?s @ ts"
    and ok: "list_all (\<lambda>t. t \<in> set (sections ?s) \<and> (sec_type t = agent \<or> magnetism t \<ge> 55)) ts"
    unfolding goodCalls_def by blast
  with assms have "t \<in> set ts" by (simp add: newScroller_def)
  with ok have gen: "t \<in> set generateSections" and good: "sec_type t = agent \<or> magnetism t \<ge> 55"
    by (auto simp: newScroller_def list_all_iff)
  from gen good micro_magnetism [of t] have "sec_type t \<noteq> micro" by auto
  with gen good show ?thesis by simp
qed

section \<open>A first key press\<close>

lemma find_append:
  "List.find P (xs @ ys) = (case List.find P xs of Some x \<Rightarrow> Some x | None \<Rightarrow> List.find P ys)"
  by (induction xs) simp_all

lemma map_filter_append:
  "List.map_filter f (xs @ ys) = List.map_filter f xs @ List.map_filter f ys"
  by (simp add: List.map_filter_def)

lemma upto_0_3000_split: "[0..3000] = [0..60] @ [61..3000]"
proof -
  have "[0..3000] = [0..60] @ [60 + 1..3000::int]"
    by (rule upto_split2) simp_all
  moreover have "(60::int) + 1 = 61" by simp
  ultimately show ?thesis by (simp only:)
qed

lemma generateSections_split60:
  "generateSections = List.map_filter sectionAt [0..60] @ List.map_filter sectionAt [61..3000]"
  by (simp only: generateSections_unsorted upto_0_3000_split map_filter_append)

lemma agents_prefix:
  "filter (\<lambda>x. sec_type x = agent) (List.map_filter sectionAt [0..60]) =
     [\<lparr>sec_position = 0, sec_type = agent, magnetism = 100, snapDuration = 9 / 5\<rparr>,
      \<lparr>sec_position = 60, sec_type = agent, magnetism = 100, snapDuration = 2\<rparr>]"
  by (simp add: upto_rec1 List.map_filter_simps sectionAt_def)

lemma find_after_start:
  "List.find (\<lambda>x. real_of_int (sec_position x) > 0 + 1)
     ([\<lparr>sec_position = 0, sec_type = agent, magnetism = 100, snapDuration = 9 / 5\<rparr>,
       \<lparr>sec_position = 60, sec_type = agent, magnetism = 100, snapDuration = 2\<rparr>] @ rest) =
   Some \<lparr>sec_position = 60, sec_type = agent, magnetism = 100, snapDuration = 2\<rparr>"
  by simp

lemma next_agent_from_start:
  assumes "sections s = generateSections" "positionRef s = 0"
  shows "findTargetSection 1 SnapAgent s =
     Some \<lparr>sec_position = 60, sec_type = agent, magnetism = 100, snapDuration = 2\<rparr>"
proof -
  have cands: "filter (\<lambda>x. sec_type x = agent) (sections s) =
      [\<lparr>sec_position = 0, sec_type = agent, magnetism = 100, snapDuration = 9 / 5\<rparr>,
       \<lparr>sec_position = 60, sec_type = agent, magnetism = 100, snapDuration = 2\<rparr>]
      @ filter (\<lambda>x. sec_type x = agent) (List.map_filter sectionAt [61..3000])"
    by (simp only: assms generateSections_split60 filter_append agents_prefix)
  show ?thesis
    unfolding findTargetSection_def Let_def cands assms(2)
    using find_after_start by simp
qed

lemma arrow_right_from_start:
  assumes "sections s = generateSections" "positionRef s = 0" "\<not> isSnapping s"
  shows "handleKeyDown ''ArrowRight'' False s =
     snapToSection \<lparr>sec_position = 60, sec_type = agent, magnetism = 100, snapDuration = 2\<rparr> s"
  using assms(3) next_agent_from_start [OF assms(1,2)]
  by (simp add: handleKeyDown_def keyTarget_def)

lemma newScroller_fields [simp]:
  "positionRef (newScroller pos pr sm ca am g) = pos"
  "sections (newScroller pos pr sm ca am g) = generateSections"
  "isSnapping (newScroller pos pr sm ca am g) = False"
  "gsap (newScroller pos pr sm ca am g) = g"
  "snapCalls (newScroller pos pr sm ca am g) = []"
  "velocity (newScroller pos pr sm ca am g) = 0"
  "currentTween (newScroller pos pr sm ca am g) = None"
  "activeTweens (newScroller pos pr sm ca am g) = []"
  "effects (newScroller pos pr sm ca am g) = []"
  by (simp_all add: newScroller_def)

theorem snap_targets_never_micro_witness:
  "\<lparr>sec_position = 60, sec_type = agent, magnetism = 100, snapDuration = 2\<rparr>
     \<in> set (snapCalls (run [KeyDown ''ArrowRight'' False] (newScroller 0 True True 0 True False)))
   \<and> sec_type \<lparr>sec_position = 60, sec_type = agent, magnetism = 100, snapDuration = 2\<rparr>
       \<noteq> micro
   \<and> \<lparr>sec_position = 60, sec_type = agent, magnetism = 100, snapDuration = 2\<rparr>
       \<in> set generateSections"
proof -
  have called: "\<lparr>sec_position = 60, sec_type = agent, magnetism = 100, snapDuration = 2\<rparr>
     \<in> set (snapCalls (run [KeyDown ''ArrowRight'' False] (newScroller 0 True True 0 True False)))"
    by (simp add: arrow_right_from_start)
  from snap_targets_never_micro [OF called] called show ?thesis by simp
qed

section \<open>Invariants of every run\<close>

lemma killAllTweens_activeTweens:
  "activeTweens (killAllTweens s) =
     (if gsap s then (case currentTween s of None \<Rightarrow> activeTweens s
                      | Some tw \<Rightarrow> remove1 tw (activeTweens s))
      else activeTweens s)"
  by (simp add: killAllTweens_def emit_def split: option.splits)

lemma snapToSection_activeTweens:
  "activeTweens (snapToSection t s) =
     (if isSnapping s \<or> \<not> gsap s then activeTweens s
      else (case currentTween s of None \<Rightarrow> activeTweens s
            | Some old \<Rightarrow> remove1 old (activeTweens s))
           @ [\<lparr>tween_current = real_of_int (sec_position t),
               tween_duration = min (snapDuration t
                   * (1 + \<bar>real_of_int (sec_position t) - positionRef s\<bar> / 100))
                 (snapDuration t * 2),
               tween_ease = ''power2.out'', tween_section = t\<rparr>])"
  by (simp add: snapToSection_def Let_def playTransitionSound_def killAllTweens_activeTweens
      split: option.splits)

lemma snapToSection_when_snapping:
  "isSnapping s \<Longrightarrow> snapToSection t s = s\<lparr>snapCalls := snapCalls s @ [t]\<rparr>"
  by (simp add: snapToSection_def Let_def)

lemma handleTouchStart_tweens:
  "currentTween (handleTouchStart k y n s) =
     (if k = 1 \<and> gsap s then None else currentTween s)"
  "activeTweens (handleTouchStart k y n s) =
     (if k = 1 \<and> gsap s then (case currentTween s of None \<Rightarrow> activeTweens s
                               | Some tw \<Rightarrow> remove1 tw (activeTweens s))
      else activeTweens s)"
  by (simp_all add: handleTouchStart_def killAllTweens_currentTween killAllTweens_activeTweens
      split: option.splits)

lemma tweenComplete_positionRef:
  "positionRef (tweenComplete s) =
     (case currentTween s of
        None \<Rightarrow> positionRef s
      | Some tw \<Rightarrow> if tw \<in> set (activeTweens s) then tween_current tw else positionRef s)"
  by (simp add: tweenComplete_def Let_def split: option.splits)

lemma tweenComplete_activeTweens:
  "activeTweens (tweenComplete s) =
     (case currentTween s of
        None \<Rightarrow> activeTweens s
      | Some tw \<Rightarrow> remove1 tw (activeTweens s))"
  by (simp add: tweenComplete_def Let_def remove1_idem split: option.splits)

lemma tweenComplete_isSnapping:
  "isSnapping (tweenComplete s) =
     (case currentTween s of
        None \<Rightarrow> isSnapping s
      | Some tw \<Rightarrow> if tw \<in> set (activeTweens s) then False else isSnapping s)"
  by (simp add: tweenComplete_def Let_def split: option.splits)

text \<open>Preservation by a snap.\<close>

lemma snapToSection_posInv:
  "posInv s \<Longrightarrow> t \<in> set (sections s) \<Longrightarrow> posInv (snapToSection t s)"
  by (auto simp: posInv_def snapToSection_positionRef snapToSection_currentTween list_all_iff)

lemma snapToSection_tweenInv: "tweenInv s \<Longrightarrow> tweenInv (snapToSection t s)"
  by (auto simp: tweenInv_def snapToSection_activeTweens snapToSection_currentTween
      split: list.splits option.splits)

lemma snapToSection_idleInv: "idleInv s \<Longrightarrow> idleInv (snapToSection t s)"
  by (auto simp: idleInv_def snapToSection_isSnapping)


lemma updatePosition_posInv: "posInv s \<Longrightarrow> posInv (updatePosition s)"
  by (simp add: posInv_def updatePosition_nonneg)

lemma checkForAutoSnap_posInv: "posInv s \<Longrightarrow> posInv (checkForAutoSnap s)"
  by (rule noop_or_snap [OF checkForAutoSnap_cases]) (simp_all add: snapToSection_posInv)

lemma step_posInv:
  assumes "posInv s"
  shows "posInv (step e s)"
proof (cases e)
  case (Wheel c d n)
  with assms show ?thesis by (simp add: posInv_def)
next
  case (KeyDown key shiftKey)
  have "posInv (handleKeyDown key shiftKey s)"
    by (rule noop_or_snap [OF handleKeyDown_cases]) (simp_all add: assms snapToSection_posInv)
  with KeyDown show ?thesis by simp
next
  case (TouchStart k y n)
  with assms show ?thesis by (simp add: posInv_def handleTouchStart_tweens)
next
  case (TouchMove k y n)
  with assms show ?thesis by (simp add: posInv_def)
next
  case TouchEnd
  with assms show ?thesis by (simp add: posInv_def)
next
  case (Click x y w)
  have "posInv (handleClick x y w s)"
    by (rule noop_or_snap [OF handleClick_cases]) (simp_all add: assms snapToSection_posInv)
  with Click show ?thesis by simp
next
  case (Frame now)
  have "posInv (updateMomentum dt (s\<lparr>lastUpdateTime := now\<rparr>))" for dt
    using assms by (simp add: posInv_def)
  then have "posInv (checkForAutoSnap (updatePosition
      (updateMomentum dt (s\<lparr>lastUpdateTime := now\<rparr>))))" for dt
    by (intro checkForAutoSnap_posInv updatePosition_posInv)
  with Frame assms show ?thesis by (simp add: updatePhysics_unfold)
next
  case InputEnd
  with assms show ?thesis by (simp add: posInv_def)
next
  case DelayedAutoSnap
  have "posInv (delayedAutoSnap s)"
    by (rule noop_or_snap [OF delayedAutoSnap_cases]) (simp_all add: assms snapToSection_posInv)
  with DelayedAutoSnap show ?thesis by simp
next
  case TweenComplete
  with assms show ?thesis
    by (auto simp: posInv_def tweenComplete_positionRef split: option.splits)
next
  case Pause
  with assms show ?thesis by (simp add: posInv_def)
next
  case Resume
  with assms show ?thesis by (simp add: posInv_def)
qed

lemma run_posInv: "posInv s \<Longrightarrow> posInv (run evs s)"
  by (induction evs arbitrary: s) (simp_all add: step_posInv)

lemma generateSections_nonneg: "list_all (\<lambda>t. 0 \<le> sec_position t) generateSections"
  by (auto simp: list_all_iff set_generateSections dest: sectionAt_position)

lemma newScroller_posInv: "0 \<le> pos \<Longrightarrow> posInv (newScroller pos pr sm ca am g)"
  by (simp add: posInv_def generateSections_nonneg)


lemma checkForAutoSnap_tweenInv: "tweenInv s \<Longrightarrow> tweenInv (checkForAutoSnap s)"
  by (rule noop_or_snap [OF checkForAutoSnap_cases]) (simp_all add: snapToSection_tweenInv)

lemma step_tweenInv:
  assumes "tweenInv s"
  shows "tweenInv (step e s)"
proof (cases e)
  case (Wheel c d n)
  with assms show ?thesis by (simp add: tweenInv_def)
next
  case (KeyDown key shiftKey)
  have "tweenInv (handleKeyDown key shiftKey s)"
    by (rule noop_or_snap [OF handleKeyDown_cases]) (simp_all add: assms snapToSection_tweenInv)
  with KeyDown show ?thesis by simp
next
  case (TouchStart k y n)
  with assms show ?thesis
    by (auto simp: tweenInv_def handleTouchStart_tweens split: list.splits option.splits)
next
  case (TouchMove k y n)
  with assms show ?thesis by (simp add: tweenInv_def)
next
  case TouchEnd
  with assms show ?thesis by (simp add: tweenInv_def)
next
  case (Click x y w)
  have "tweenInv (handleClick x y w s)"
    by (rule noop_or_snap [OF handleClick_cases]) (simp_all add: assms snapToSection_tweenInv)
  with Click show ?thesis by simp
next
  case (Frame now)
  have "tweenInv (updatePosition (updateMomentum dt (s\<lparr>lastUpdateTime := now\<rparr>)))" for dt
    using assms by (simp add: tweenInv_def)
  then have "tweenInv (checkForAutoSnap (updatePosition
      (updateMomentum dt (s\<lparr>lastUpdateTime := now\<rparr>))))" for dt
    by (rule checkForAutoSnap_tweenInv)
  with Frame assms show ?thesis by (simp add: updatePhysics_unfold)
next
  case InputEnd
  with assms show ?thesis by (simp add: tweenInv_def)
next
  case DelayedAutoSnap
  have "tweenInv (delayedAutoSnap s)"
    by (rule noop_or_snap [OF delayedAutoSnap_cases]) (simp_all add: assms snapToSection_tweenInv)
  with DelayedAutoSnap show ?thesis by simp
next
  case TweenComplete
  with assms show ?thesis
    by (auto simp: tweenInv_def tweenComplete_activeTweens split: list.splits option.splits)
next
  case Pause
  with assms show ?thesis by (simp add: tweenInv_def)
next
  case Resume
  with assms show ?thesis by (simp add: tweenInv_def)
qed

lemma run_tweenInv: "tweenInv s \<Longrightarrow> tweenInv (run evs s)"
  by (induction evs arbitrary: s) (simp_all add: step_tweenInv)

lemma tweenInv_length: "tweenInv s \<Longrightarrow> length (activeTweens s) \<le> 1"
  using length_map [of Some "activeTweens s"] by (auto simp: tweenInv_def)

lemma checkForAutoSnap_idleInv: "idleInv s \<Longrightarrow> idleInv (checkForAutoSnap s)"
  by (rule noop_or_snap [OF checkForAutoSnap_cases]) (simp_all add: snapToSection_idleInv)

lemma step_idleInv:
  assumes "idleInv s"
  shows "idleInv (step e s)"
proof (cases e)
  case (KeyDown key shiftKey)
  have "idleInv (handleKeyDown key shiftKey s)"
    by (rule noop_or_snap [OF handleKeyDown_cases]) (simp_all add: assms snapToSection_idleInv)
  with KeyDown show ?thesis by simp
next
  case (Click x y w)
  have "idleInv (handleClick x y w s)"
    by (rule noop_or_snap [OF handleClick_cases]) (simp_all add: assms snapToSection_idleInv)
  with Click show ?thesis by simp
next
  case (Frame now)
  have "idleInv (updatePosition (updateMomentum dt (s\<lparr>lastUpdateTime := now\<rparr>)))" for dt
    using assms by (simp add: idleInv_def)
  then have "idleInv (checkForAutoSnap (updatePosition
      (updateMomentum dt (s\<lparr>lastUpdateTime := now\<rparr>))))" for dt
    by (rule checkForAutoSnap_idleInv)
  with Frame assms show ?thesis by (simp add: updatePhysics_unfold)
next
  case DelayedAutoSnap
  have "idleInv (delayedAutoSnap s)"
    by (rule noop_or_snap [OF delayedAutoSnap_cases]) (simp_all add: assms snapToSection_idleInv)
  with DelayedAutoSnap show ?thesis by simp
next
  case TweenComplete
  with assms show ?thesis
    by (auto simp: idleInv_def tweenComplete_isSnapping split: option.splits)
qed (use assms in \<open>simp_all add: idleInv_def\<close>)

lemma run_idleInv: "idleInv s \<Longrightarrow> idleInv (run evs s)"
  by (induction evs arbitrary: s) (simp_all add: step_idleInv)

section \<open>The position is never negative\<close>

lemma sm_emit_fields [simp]:
  "sm_positionRef (sm_emit e s) = sm_positionRef s"
  "sm_isSnapping (sm_emit e s) = sm_isSnapping s"
  "sm_gsap (sm_emit e s) = sm_gsap s"
  "sm_currentTween (sm_emit e s) = sm_currentTween s"
  "sm_activeTweens (sm_emit e s) = sm_activeTweens s"
  "sm_currentAgentRef (sm_emit e s) = sm_currentAgentRef s"
  "sm_effects (sm_emit e s) = sm_effects s @ [e]"
  by (simp_all add: sm_emit_def)

lemma sm_updateScene_fields [simp]:
  "sm_positionRef (sm_updateScene s) = sm_positionRef s"
  "sm_isSnapping (sm_updateScene s) = sm_isSnapping s"
  "sm_gsap (sm_updateScene s) = sm_gsap s"
  "sm_currentTween (sm_updateScene s) = sm_currentTween s"
  "sm_activeTweens (sm_updateScene s) = sm_activeTweens s"
  "sm_currentAgentRef (sm_updateScene s) = sm_currentAgentRef s"
  by (simp_all add: sm_updateScene_def Let_def)

lemma sm_killTween_fields [simp]:
  "sm_positionRef (sm_killTween s) = sm_positionRef s"
  "sm_isSnapping (sm_killTween s) = sm_isSnapping s"
  "sm_gsap (sm_killTween s) = sm_gsap s"
  "sm_currentTween (sm_killTween s) = None"
  by (simp_all add: sm_killTween_def split: option.splits)

lemma applyImmediateScroll_nonneg:
  "0 \<le> sm_positionRef s \<Longrightarrow> 0 \<le> sm_positionRef (applyImmediateScroll s)"
  by (simp add: applyImmediateScroll_def Let_def)

lemma applyImmediateScroll_tween_nonneg:
  "\<bar>scrollAccumulator s\<bar> > 0.1 \<Longrightarrow> sm_gsap s \<Longrightarrow>
     \<exists>tw. sm_currentTween (applyImmediateScroll s) = Some tw \<and> 0 \<le> stw_current tw"
  by (simp add: applyImmediateScroll_def Let_def)

lemma updatePosition_value:
  "positionRef (updatePosition s) =
     (if \<bar>velocity s\<bar> > 0.01 then max 0 (positionRef s + velocity s) else positionRef s)"
  by (simp add: updatePosition_def Let_def)

text \<open>
  C1. The path position is never negative: along every run of a scroller constructed at a
  non-negative position (any sequence of wheel, key, touch and click events, physics
  frames, timer callbacks and tween completions) the position stays \<open>\<ge> 0\<close>; the free-mode
  update is \<open>position := max(0, position + velocity)\<close> (applied when \<open>|velocity| > 0.01\<close>) and
  keeps a non-negative position non-negative; so does the immediate scroll of
  \<open>SmoothSectionScroller\<close>.
\<close>

theorem position_never_negative:
  assumes "0 \<le> pos" and "0 \<le> positionRef s" and "0 \<le> sm_positionRef ss"
  shows "0 \<le> positionRef (run evs (newScroller pos pr sm ca am g))
       \<and> positionRef (updatePosition s) =
           (if \<bar>velocity s\<bar> > 0.01 then max 0 (positionRef s + velocity s) else positionRef s)
       \<and> 0 \<le> positionRef (updatePosition s)
       \<and> 0 \<le> sm_positionRef (applyImmediateScroll ss)"
proof -
  have "posInv (run evs (newScroller pos pr sm ca am g))"
    by (intro run_posInv newScroller_posInv assms(1))
  then have "0 \<le> positionRef (run evs (newScroller pos pr sm ca am g))"
    by (simp add: posInv_def)
  with assms(2,3) show ?thesis
    by (simp add: updatePosition_value updatePosition_nonneg applyImmediateScroll_nonneg)
qed

theorem position_never_negative_witness:
  "0 \<le> positionRef
      (run [Wheel False (- 120) 5, Frame 16, InputEnd, Frame 32]
         (newScroller 0 True True 0 True True))
   \<and> 0 \<le> positionRef
      (updatePosition (handleWheel False (- 120) 5 (newScroller 0 True True 0 True True)))
   \<and> 0 \<le> sm_positionRef
      (applyImmediateScroll
         ((newSmoothScroller 0 True True 0 True False)\<lparr>scrollAccumulator := - 12\<rparr>))"
  using position_never_negative
    [of 0 "handleWheel False (- 120) 5 (newScroller 0 True True 0 True True)"
        "(newSmoothScroller 0 True True 0 True False)\<lparr>scrollAccumulator := - 12\<rparr>"
        "[Wheel False (- 120) 5, Frame 16, InputEnd, Frame 32]" True True 0 True True]
  by (simp add: newSmoothScroller_def)

section \<open>A snap request during a snap\<close>

lemma handleKeyDown_when_snapping: "isSnapping s \<Longrightarrow> handleKeyDown key shiftKey s = s"
  by (simp add: handleKeyDown_def)

lemma handleClick_when_snapping: "isSnapping s \<Longrightarrow> handleClick x y w s = s"
  by (simp add: handleClick_def)

lemma sm_snapToSection_when_snapping: "sm_isSnapping ss \<Longrightarrow> sm_snapToSection p d ss = ss"
  by (simp add: sm_snapToSection_def)

lemma newScroller_tweenInv: "tweenInv (newScroller pos pr sm ca am g)"
  by (simp add: tweenInv_def)

text \<open>
  C4 (amended). While a snap transition is in flight (\<open>isSnapping\<close>), a new snap request
  is dropped: \<open>snapToSection\<close> changes nothing (only the record of invocations grows), the
  key and click handlers return at once, and the smooth scroller's \<open>snapToSection\<close>
  returns at once; the transition in flight runs on to its own target and none is started
  for the new one. When no snap is in flight and the tween library is present, the tween
  the scroller holds is killed before the new one is started. Along every run at most one
  tween drives the position.
\<close>

theorem snap_request_while_snapping_is_dropped:
  assumes "isSnapping s" and "sm_isSnapping ss" and "\<not> isSnapping s'" and "gsap s'"
  shows "snapToSection t s = s\<lparr>snapCalls := snapCalls s @ [t]\<rparr>
       \<and> handleKeyDown key shiftKey s = s
       \<and> handleClick x y w s = s
       \<and> sm_snapToSection p d ss = ss
       \<and> activeTweens (snapToSection t s') =
           (case currentTween s' of None \<Rightarrow> activeTweens s'
            | Some old \<Rightarrow> remove1 old (activeTweens s'))
           @ [\<lparr>tween_current = real_of_int (sec_position t),
               tween_duration = min (snapDuration t
                   * (1 + \<bar>real_of_int (sec_position t) - positionRef s'\<bar> / 100))
                 (snapDuration t * 2),
               tween_ease = ''power2.out'', tween_section = t\<rparr>]
       \<and> length (activeTweens (run evs (newScroller pos pr sm ca am g))) \<le> 1"
proof -
  have "length (activeTweens (run evs (newScroller pos pr sm ca am g))) \<le> 1"
    by (intro tweenInv_length run_tweenInv newScroller_tweenInv)
  with assms show ?thesis
    by (simp add: snapToSection_when_snapping handleKeyDown_when_snapping
        handleClick_when_snapping sm_snapToSection_when_snapping snapToSection_activeTweens)
qed

lemma first_snap_state:
  "handleKeyDown ''ArrowRight'' False (newScroller 0 True True 0 True True) =
     snapToSection \<lparr>sec_position = 60, sec_type = agent, magnetism = 100, snapDuration = 2\<rparr>
       (newScroller 0 True True 0 True True)"
  by (simp add: arrow_right_from_start)

lemma first_snap_fields:
  "isSnapping (snapToSection
     \<lparr>sec_position = 60, sec_type = agent, magnetism = 100, snapDuration = 2\<rparr>
     (newScroller 0 True True 0 True True))"
  "map tween_current (activeTweens (snapToSection
     \<lparr>sec_position = 60, sec_type = agent, magnetism = 100, snapDuration = 2\<rparr>
     (newScroller 0 True True 0 True True))) = [60]"
  "effects (snapToSection
     \<lparr>sec_position = 60, sec_type = agent, magnetism = 100, snapDuration = 2\<rparr>
     (newScroller 0 True True 0 True True)) =
     [OptimizeForGSAPAnimation True, PlayTransitionSound]"
  "velocity (snapToSection
     \<lparr>sec_position = 60, sec_type = agent, magnetism = 100, snapDuration = 2\<rparr>
     (newScroller 0 True True 0 True True)) = 0"
  "positionRef (snapToSection
     \<lparr>sec_position = 60, sec_type = agent, magnetism = 100, snapDuration = 2\<rparr>
     (newScroller 0 True True 0 True True)) = 0"
  "isPhysicsPaused (snapToSection
     \<lparr>sec_position = 60, sec_type = agent, magnetism = 100, snapDuration = 2\<rparr>
     (newScroller 0 True True 0 True True)) = False"
  by (simp_all add: snapToSection_def Let_def newScroller_def killAllTweens_def emit_def
        playTransitionSound_def)

text \<open>
  C4, as stated, has a snap request made during a snap kill the transition in flight and
  start one to the new target. After \<open>ArrowRight\<close> at position 0 (with the tween library
  present) a snap to 60 is in flight; a request for section 120, or a second \<open>ArrowRight\<close>,
  then kills nothing and starts nothing: the only running tween still ends at 60.
\<close>

theorem second_snap_request_starts_nothing:
  "isSnapping (run [KeyDown ''ArrowRight'' False] (newScroller 0 True True 0 True True))
   \<and> map tween_current (activeTweens
        (snapToSection
           \<lparr>sec_position = 120, sec_type = agent, magnetism = 100, snapDuration = 2\<rparr>
           (run [KeyDown ''ArrowRight'' False] (newScroller 0 True True 0 True True)))) = [60]
   \<and> TweenKill \<notin> set (effects
        (snapToSection
           \<lparr>sec_position = 120, sec_type = agent, magnetism = 100, snapDuration = 2\<rparr>
           (run [KeyDown ''ArrowRight'' False] (newScroller 0 True True 0 True True))))
   \<and> map tween_current (activeTweens
        (run [KeyDown ''ArrowRight'' False, KeyDown ''ArrowRight'' False]
           (newScroller 0 True True 0 True True))) = [60]"
  by (simp add: first_snap_state first_snap_fields snapToSection_when_snapping
      handleKeyDown_when_snapping)

lemma smooth_first_snap_snapping:
  "sm_isSnapping (sm_snapToSection 60 1.5 (newSmoothScroller 0 True True 0 True True))"
  by (simp add: sm_snapToSection_def Let_def sm_playTransitionSound_def sm_emit_def
      sm_killTween_def newSmoothScroller_def split: option.splits)

theorem snap_request_while_snapping_is_dropped_witness:
  "isSnapping (run [KeyDown ''ArrowRight'' False] (newScroller 0 True True 0 True True))
   \<and> sm_isSnapping (sm_snapToSection 60 1.5 (newSmoothScroller 0 True True 0 True True))
   \<and> \<not> isSnapping (newScroller 0 True True 0 True True)
   \<and> gsap (newScroller 0 True True 0 True True)
   \<and> handleKeyDown ''ArrowRight'' False
        (run [KeyDown ''ArrowRight'' False] (newScroller 0 True True 0 True True))
      = run [KeyDown ''ArrowRight'' False] (newScroller 0 True True 0 True True)
   \<and> length (activeTweens
        (snapToSection
           \<lparr>sec_position = 60, sec_type = agent, magnetism = 100, snapDuration = 2\<rparr>
           (newScroller 0 True True 0 True True))) = 1"
  using snap_request_while_snapping_is_dropped
    [of "run [KeyDown ''ArrowRight'' False] (newScroller 0 True True 0 True True)"
        "sm_snapToSection 60 1.5 (newSmoothScroller 0 True True 0 True True)"
        "newScroller 0 True True 0 True True"
        "\<lparr>sec_position = 60, sec_type = agent, magnetism = 100, snapDuration = 2\<rparr>"
        "''ArrowRight''" False 0 0 0 0 0 "[]" 0 True True 0 True True]
    smooth_first_snap_snapping
  by (simp add: first_snap_state first_snap_fields)

section \<open>A snap ends at its target\<close>

lemma newScroller_idleInv: "idleInv (newScroller pos pr sm ca am g)"
  by (simp add: idleInv_def)

lemma snap_without_gsap:
  assumes "\<not> gsap s" "\<not> isSnapping s"
  shows "positionRef (snapToSection t s) = real_of_int (sec_position t)"
    and "\<not> isSnapping (snapToSection t s)"
    and "pathRendererRef s \<Longrightarrow> \<exists>rest. effects (snapToSection t s) = effects s @ CreateDottedPath # rest"
  using assms
  by (simp_all add: snapToSection_positionRef snapToSection_isSnapping)
     (simp add: snapToSection_def Let_def killAllTweens_def updateScene_def emit_def
        playTransitionSound_def)

lemma snap_with_gsap_completes:
  assumes "gsap s" "\<not> isSnapping s"
  shows "positionRef (tweenComplete (snapToSection t s)) = real_of_int (sec_position t)"
    and "\<not> isSnapping (tweenComplete (snapToSection t s))"
  using assms
  by (simp_all add: tweenComplete_positionRef tweenComplete_isSnapping
      snapToSection_currentTween snapToSection_activeTweens)

lemma sm_snap_without_gsap:
  assumes "\<not> sm_gsap ss" "\<not> sm_isSnapping ss"
  shows "sm_positionRef (sm_snapToSection p d ss) = p"
    and "\<not> sm_isSnapping (sm_snapToSection p d ss)"
  using assms by (simp_all add: sm_snapToSection_def Let_def)


lemma sm_killTween_activeTweens:
  "sm_activeTweens (sm_killTween s) =
     (case sm_currentTween s of None \<Rightarrow> sm_activeTweens s
      | Some tw \<Rightarrow> remove1 tw (sm_activeTweens s))"
  by (simp add: sm_killTween_def split: option.splits)

lemma sm_snapToSection_tween:
  assumes "sm_gsap ss" "\<not> sm_isSnapping ss" "p \<noteq> sm_positionRef ss"
  shows "sm_currentTween (sm_snapToSection p d ss) =
           Some \<lparr>stw_current = p, stw_duration = d,
                 stw_ease = (if \<bar>p - sm_positionRef ss\<bar> > 100 then ''power2.inOut''
                             else ''power3.out''),
                 stw_isSnap = True\<rparr>"
    and "\<lparr>stw_current = p, stw_duration = d,
          stw_ease = (if \<bar>p - sm_positionRef ss\<bar> > 100 then ''power2.inOut''
                      else ''power3.out''),
          stw_isSnap = True\<rparr> \<in> set (sm_activeTweens (sm_snapToSection p d ss))"
  using assms
  by (simp_all add: sm_snapToSection_def Let_def sm_playTransitionSound_def
      split: option.splits)

lemma sm_tweenComplete_fields:
  "sm_positionRef (sm_tweenComplete s) =
     (case sm_currentTween s of
        None \<Rightarrow> sm_positionRef s
      | Some tw \<Rightarrow> if tw \<in> set (sm_activeTweens s) then stw_current tw else sm_positionRef s)"
  "sm_isSnapping (sm_tweenComplete s) =
     (case sm_currentTween s of
        None \<Rightarrow> sm_isSnapping s
      | Some tw \<Rightarrow> if tw \<in> set (sm_activeTweens s) \<and> stw_isSnap tw then False
                   else sm_isSnapping s)"
  by (simp_all add: sm_tweenComplete_def Let_def split: option.splits)

lemma sm_snap_with_gsap_completes:
  assumes "sm_gsap ss" "\<not> sm_isSnapping ss" "p \<noteq> sm_positionRef ss"
  shows "sm_positionRef (sm_tweenComplete (sm_snapToSection p d ss)) = p"
    and "\<not> sm_isSnapping (sm_tweenComplete (sm_snapToSection p d ss))"
  using sm_snapToSection_tween [OF assms, of d]
  by (simp_all add: sm_tweenComplete_fields)

lemma checkForAutoSnap_when_snapping: "isSnapping s \<Longrightarrow> checkForAutoSnap s = s"
  by (simp add: checkForAutoSnap_def)

lemma step_inFlight:
  assumes "inFlight tw s" "keepsTween e"
  shows "inFlight tw (step e s)"
proof (cases e)
  case (KeyDown key shiftKey)
  with assms show ?thesis by (simp add: inFlight_def handleKeyDown_when_snapping)
next
  case (TouchStart k y n)
  with assms show ?thesis by (simp add: handleTouchStart_def)
next
  case (Click x y w)
  with assms show ?thesis by (simp add: inFlight_def handleClick_when_snapping)
next
  case (Frame now)
  have "checkForAutoSnap (updatePosition (updateMomentum dt (s\<lparr>lastUpdateTime := now\<rparr>)))
      = updatePosition (updateMomentum dt (s\<lparr>lastUpdateTime := now\<rparr>))" for dt
    using assms(1) by (intro checkForAutoSnap_when_snapping) (simp add: inFlight_def)
  with Frame assms(1) show ?thesis by (simp add: updatePhysics_unfold inFlight_def)
next
  case DelayedAutoSnap
  with assms show ?thesis by (simp add: inFlight_def delayedAutoSnap_def)
next
  case TweenComplete
  with assms show ?thesis by simp
qed (use assms in \<open>simp_all add: inFlight_def\<close>)

lemma run_inFlight:
  "inFlight tw s \<Longrightarrow> list_all keepsTween evs \<Longrightarrow> inFlight tw (run evs s)"
  by (induction evs arbitrary: s) (simp_all add: step_inFlight)

lemma snapToSection_inFlight:
  assumes "gsap s" "\<not> isSnapping s"
  shows "inFlight
     \<lparr>tween_current = real_of_int (sec_position t),
       tween_duration = min (snapDuration t
           * (1 + \<bar>real_of_int (sec_position t) - positionRef s\<bar> / 100))
         (snapDuration t * 2),
       tween_ease = ''power2.out'', tween_section = t\<rparr>
     (snapToSection t s)"
  using assms
  by (simp add: inFlight_def snapToSection_isSnapping snapToSection_currentTween
      snapToSection_activeTweens)

lemma tweenComplete_inFlight:
  assumes "inFlight tw s"
  shows "positionRef (tweenComplete s) = tween_current tw"
    and "\<not> isSnapping (tweenComplete s)"
    and "pathRendererRef s \<Longrightarrow> \<exists>rest. effects (tweenComplete s) = effects s @ CreateDottedPath # rest"
  using assms
  by (simp_all add: inFlight_def tweenComplete_positionRef tweenComplete_isSnapping)
     (simp add: tweenComplete_def Let_def updateScene_def emit_def playTransitionSound_def)

lemma snap_then_events_then_completion:
  assumes "gsap s" "\<not> isSnapping s" "list_all keepsTween evs"
  shows "positionRef (tweenComplete (run evs (snapToSection t s))) = real_of_int (sec_position t)"
    and "\<not> isSnapping (tweenComplete (run evs (snapToSection t s)))"
    and "pathRendererRef (run evs (snapToSection t s)) \<Longrightarrow>
           \<exists>rest. effects (tweenComplete (run evs (snapToSection t s)))
             = effects (run evs (snapToSection t s)) @ CreateDottedPath # rest"
proof -
  let ?tw = "\<lparr>tween_current = real_of_int (sec_position t),
       tween_duration = min (snapDuration t
           * (1 + \<bar>real_of_int (sec_position t) - positionRef s\<bar> / 100))
         (snapDuration t * 2),
       tween_ease = ''power2.out'', tween_section = t\<rparr>"
  have fl: "inFlight ?tw (run evs (snapToSection t s))"
    by (intro run_inFlight snapToSection_inFlight assms)
  from tweenComplete_inFlight(1) [OF fl]
  show "positionRef (tweenComplete (run evs (snapToSection t s))) = real_of_int (sec_position t)"
    by simp
  show "\<not> isSnapping (tweenComplete (run evs (snapToSection t s)))"
    by (rule tweenComplete_inFlight(2) [OF fl])
  show "pathRendererRef (run evs (snapToSection t s)) \<Longrightarrow>
           \<exists>rest. effects (tweenComplete (run evs (snapToSection t s)))
             = effects (run evs (snapToSection t s)) @ CreateDottedPath # rest"
    by (rule tweenComplete_inFlight(3) [OF fl])
qed


lemma sm_killTween_effects:
  "sm_effects (sm_killTween s) =
     sm_effects s @ (case sm_currentTween s of None \<Rightarrow> [] | Some tw \<Rightarrow> [TweenKill])"
  by (simp add: sm_killTween_def sm_emit_def split: option.splits)

lemma sm_updateScene_effects:
  "sm_effects (sm_updateScene s) =
     sm_effects s @ (if sm_pathRendererRef s then [CreateDottedPath] else [])
       @ (if \<lfloor>sm_positionRef s / 60\<rfloor> \<noteq> sm_currentAgentRef s \<and> sm_sceneManagerRef s
          then [UpdateBackgroundForAgent \<lfloor>sm_positionRef s / 60\<rfloor>] else [])"
  by (simp add: sm_updateScene_def sm_emit_def Let_def)

lemma sm_killTween_more_fields [simp]:
  "sm_pathRendererRef (sm_killTween s) = sm_pathRendererRef s"
  "sm_sceneManagerRef (sm_killTween s) = sm_sceneManagerRef s"
  "sm_currentAgentRef (sm_killTween s) = sm_currentAgentRef s"
  by (simp_all add: sm_killTween_def sm_emit_def split: option.splits)

lemma sm_snap_rebuilds_without_gsap:
  assumes "\<not> sm_gsap ss" "\<not> sm_isSnapping ss" "p \<noteq> sm_positionRef ss" "sm_pathRendererRef ss"
  shows "CreateDottedPath
           \<in> set (drop (length (sm_effects ss)) (sm_effects (sm_snapToSection p d ss)))"
  using assms
  by (simp add: sm_snapToSection_def Let_def sm_updateScene_effects sm_killTween_effects
      split: option.splits)

lemma sm_snapToSection_snapping:
  assumes "sm_gsap ss" "\<not> sm_isSnapping ss" "p \<noteq> sm_positionRef ss"
  shows "sm_isSnapping (sm_snapToSection p d ss)"
  using assms
  by (simp add: sm_snapToSection_def Let_def sm_playTransitionSound_def split: option.splits)

lemma sm_handleWheel_when_snapping: "sm_isSnapping s \<Longrightarrow> sm_handleWheel c d n s = s"
  by (simp add: sm_handleWheel_def)

lemma sm_wheels_when_snapping: "sm_isSnapping s \<Longrightarrow> sm_wheels ws s = s"
  unfolding sm_wheels_def
  by (induction ws) (simp_all add: sm_handleWheel_when_snapping split: prod.splits)

lemma sm_tweenComplete_rebuilds:
  assumes "sm_currentTween s = Some tw" "tw \<in> set (sm_activeTweens s)" "sm_pathRendererRef s"
  shows "CreateDottedPath
           \<in> set (drop (length (sm_effects s)) (sm_effects (sm_tweenComplete s)))"
  using assms
  by (simp add: sm_tweenComplete_def Let_def sm_updateScene_effects sm_emit_def)

lemma sm_snap_then_wheels_then_completion:
  assumes "sm_gsap ss" "\<not> sm_isSnapping ss" "p \<noteq> sm_positionRef ss"
  shows "sm_positionRef (sm_tweenComplete (sm_wheels ws (sm_snapToSection p d ss))) = p"
    and "\<not> sm_isSnapping (sm_tweenComplete (sm_wheels ws (sm_snapToSection p d ss)))"
    and "sm_pathRendererRef (sm_snapToSection p d ss) \<Longrightarrow>
           CreateDottedPath \<in> set (drop (length (sm_effects (sm_snapToSection p d ss)))
             (sm_effects (sm_tweenComplete (sm_wheels ws (sm_snapToSection p d ss)))))"
proof -
  have same: "sm_wheels ws (sm_snapToSection p d ss) = sm_snapToSection p d ss"
    by (intro sm_wheels_when_snapping sm_snapToSection_snapping assms)
  show "sm_positionRef (sm_tweenComplete (sm_wheels ws (sm_snapToSection p d ss))) = p"
    unfolding same by (rule sm_snap_with_gsap_completes(1) [OF assms])
  show "\<not> sm_isSnapping (sm_tweenComplete (sm_wheels ws (sm_snapToSection p d ss)))"
    unfolding same by (rule sm_snap_with_gsap_completes(2) [OF assms])
  show "sm_pathRendererRef (sm_snapToSection p d ss) \<Longrightarrow>
           CreateDottedPath \<in> set (drop (length (sm_effects (sm_snapToSection p d ss)))
             (sm_effects (sm_tweenComplete (sm_wheels ws (sm_snapToSection p d ss)))))"
    unfolding same
    by (rule sm_tweenComplete_rebuilds [OF sm_snapToSection_tween [OF assms]])
qed




section \<open>Two places where the code departs from its intent\<close>

text \<open>
  C2. The claim is that a snap in flight pins the velocity to zero and that free-mode
  physics leaves the position alone. \<open>snapToSection\<close> zeroes the velocity and
  \<open>updateMomentum\<close> returns at once while snapping, but \<open>handleWheel\<close> has no such guard
  (the wheel handler of \<open>SmoothSectionScroller\<close> has one) and neither has
  \<open>updatePosition\<close>. With the tween library present: \<open>ArrowRight\<close> at position 0 starts a
  snap to 60; a wheel event with \<open>deltaY = 100\<close> then sets the velocity to 1.8 while
  \<open>isSnapping\<close> holds; the next physics frame applies no friction and moves the position
  by that velocity.
\<close>

theorem wheel_during_snap_moves_position:
  "isSnapping (run [KeyDown ''ArrowRight'' False, Wheel False 100 1000]
      (newScroller 0 True True 0 True True))
   \<and> velocity (run [KeyDown ''ArrowRight'' False, Wheel False 100 1000]
      (newScroller 0 True True 0 True True)) = 9 / 5
   \<and> isSnapping (run [KeyDown ''ArrowRight'' False, Wheel False 100 1000, Frame 1016]
      (newScroller 0 True True 0 True True))
   \<and> velocity (run [KeyDown ''ArrowRight'' False, Wheel False 100 1000, Frame 1016]
      (newScroller 0 True True 0 True True)) = 9 / 5
   \<and> positionRef (run [KeyDown ''ArrowRight'' False, Wheel False 100 1000, Frame 1016]
      (newScroller 0 True True 0 True True)) = 9 / 5"
  by (simp add: first_snap_state first_snap_fields handleWheel_def updatePhysics_unfold
      updateMomentum_def updatePosition_def checkForAutoSnap_def Let_def
      maxVelocity_def accelerationMultiplier_def)

text \<open>
  C9. The claim is that the background sink is called at most once per change of
  \<open>\<lfloor>position / 60\<rfloor>\<close>. \<open>SmoothSectionScroller.updateScene\<close> compares the index with
  \<open>currentAgentRef.current\<close> but never writes it, so every scene update at an index other
  than the stale one calls the sink again. Without the tween library, from position 0: a
  snap to 60 calls the sink with index 1, and a following wheel event (position 63.6, the
  same index 1) calls it with index 1 again.
\<close>

theorem smooth_background_called_twice_for_one_index:
  "sm_effects (sm_handleWheel False 100 1000
      (sm_snapToSection 60 1.5 (newSmoothScroller 0 True True 0 True False))) =
     [CreateDottedPath, UpdateBackgroundForAgent 1, CreateDottedPath, UpdateBackgroundForAgent 1]
   \<and> \<lfloor>sm_positionRef (sm_snapToSection 60 1.5 (newSmoothScroller 0 True True 0 True False))
        / 60\<rfloor> = 1
   \<and> \<lfloor>sm_positionRef (sm_handleWheel False 100 1000
        (sm_snapToSection 60 1.5 (newSmoothScroller 0 True True 0 True False))) / 60\<rfloor> = 1"
  by (simp add: sm_handleWheel_def sm_snapToSection_def applyImmediateScroll_def
      sm_updateScene_def sm_killTween_def sm_emit_def newSmoothScroller_def Let_def
      SCROLL_SENSITIVITY_def)

text \<open>\<open>EnhancedMomentumScroller.updateScene\<close> does write the reference: it calls the sink
  exactly when the index differs from the last one it stored.\<close>

lemma updateScene_currentAgentRef:
  "sceneManagerRef s \<Longrightarrow> currentAgentRef (updateScene s) = \<lfloor>positionRef s / 60\<rfloor>"
  by (simp add: updateScene_def Let_def playTransitionSound_def emit_def)

lemma updateScene_background:
  "filter (\<lambda>e. e = UpdateBackgroundForAgent i) (effects (updateScene s)) =
     filter (\<lambda>e. e = UpdateBackgroundForAgent i) (effects s)
     @ (if sceneManagerRef s \<and> \<lfloor>positionRef s / 60\<rfloor> \<noteq> currentAgentRef s
           \<and> i = \<lfloor>positionRef s / 60\<rfloor>
        then [UpdateBackgroundForAgent i] else [])"
  by (simp add: updateScene_def Let_def playTransitionSound_def emit_def)

section \<open>Friction decay\<close>

lemma friction_range: "0 < friction \<and> friction < 1"
  by (simp add: friction_def)

lemma applyMagneticForces_pullFree: "pullFree s \<Longrightarrow> applyMagneticForces s = s"
  by (simp add: applyMagneticForces_closed_form pullFree_def)

lemma updateMomentum_coasting_velocity:
  assumes "\<not> isSnapping s" "\<bar>inputAccumulator s\<bar> \<le> 0.001" "pullFree s"
  shows "velocity (updateMomentum dt s) =
     (if \<bar>velocity s * friction powr (dt / 16)\<bar> < minVelocity then 0
      else max (- maxVelocity) (min maxVelocity (velocity s * friction powr (dt / 16))))"
proof -
  let ?s1 = "s\<lparr>velocity := velocity s * (friction powr (dt / 16))\<rparr>"
  have "pullFree ?s1" using assms(3) by (simp add: pullFree_def)
  then have "applyMagneticForces ?s1 = ?s1" by (rule applyMagneticForces_pullFree)
  with assms(1,2) show ?thesis
    by (simp add: updateMomentum_def Let_def)
qed

lemma frame_factor:
  assumes "1 \<le> dt"
  shows "0 < friction powr (real_of_int dt / 16)"
    and "friction powr (real_of_int dt / 16) \<le> friction powr (1 / 16)"
proof -
  show "0 < friction powr (real_of_int dt / 16)"
    by (simp add: friction_def)
  have "1 / 16 \<le> real_of_int dt / 16" using assms by simp
  then show "friction powr (real_of_int dt / 16) \<le> friction powr (1 / 16)"
    by (rule powr_mono') (simp_all add: friction_def)
qed

lemma clamp_abs:
  "\<bar>if \<bar>w\<bar> < minVelocity then 0 else max (- maxVelocity) (min maxVelocity w)\<bar> \<le> \<bar>w\<bar>"
  "\<bar>if \<bar>w\<bar> < minVelocity then 0 else max (- maxVelocity) (min maxVelocity w)\<bar> \<le> maxVelocity"
  by (auto simp: maxVelocity_def minVelocity_def)

lemma checkForAutoSnap_velocity:
  "velocity (checkForAutoSnap s) = velocity s \<or> velocity (checkForAutoSnap s) = 0"
  by (rule noop_or_snap [OF checkForAutoSnap_cases]) (simp_all add: snapToSection_velocity)


lemma frame_decay:
  assumes "\<not> isPhysicsPaused s" "\<not> isSnapping s" "\<bar>inputAccumulator s\<bar> \<le> 0.001"
    "pullFree s" "lastUpdateTime s \<le> now"
  shows "\<bar>velocity (updatePhysics now s)\<bar> \<le> friction powr (1 / 16) * \<bar>velocity s\<bar>"
    and "\<bar>velocity (updatePhysics now s)\<bar> \<le> maxVelocity"
    and "friction powr (1 / 16) * \<bar>velocity s\<bar> < minVelocity
           \<Longrightarrow> velocity (updatePhysics now s) = 0"
proof -
  define dt where "dt = (if now - lastUpdateTime s = 0 then 16 else now - lastUpdateTime s)"
  define c where "c = friction powr (real_of_int dt / 16)"
  define w where "w = velocity s * c"
  define vm where "vm = (if \<bar>w\<bar> < minVelocity then 0 else max (- maxVelocity) (min maxVelocity w))"
  let ?s' = "s\<lparr>lastUpdateTime := now\<rparr>"
  let ?m = "updatePosition (updateMomentum (real_of_int dt) ?s')"
  have dt: "1 \<le> dt" using assms(5) by (simp add: dt_def)
  have c: "0 < c" "c \<le> friction powr (1 / 16)"
    unfolding c_def by (rule frame_factor [OF dt])+
  have "pullFree ?s'" using assms(4) by (simp add: pullFree_def)
  then have "velocity (updateMomentum (real_of_int dt) ?s') = vm"
    using assms(2,3)
    by (simp add: updateMomentum_coasting_velocity vm_def w_def c_def)
  then have m: "velocity ?m = vm" by simp
  have phys: "updatePhysics now s = checkForAutoSnap ?m"
    using assms(1) by (simp add: updatePhysics_unfold dt_def)
  have w: "\<bar>w\<bar> \<le> friction powr (1 / 16) * \<bar>velocity s\<bar>"
  proof -
    have "\<bar>w\<bar> = c * \<bar>velocity s\<bar>" using c(1) by (simp add: w_def abs_mult)
    also have "\<dots> \<le> friction powr (1 / 16) * \<bar>velocity s\<bar>"
      by (rule mult_right_mono [OF c(2)]) simp
    finally show ?thesis .
  qed
  have vm_w: "\<bar>vm\<bar> \<le> \<bar>w\<bar>" and vm_max: "\<bar>vm\<bar> \<le> maxVelocity"
    unfolding vm_def by (rule clamp_abs)+
  have final: "velocity (updatePhysics now s) = vm \<or> velocity (updatePhysics now s) = 0"
  proof -
    have "velocity (checkForAutoSnap ?m) = velocity ?m \<or> velocity (checkForAutoSnap ?m) = 0"
      by (rule checkForAutoSnap_velocity)
    then show ?thesis by (simp only: phys m)
  qed
  from final vm_w w show "\<bar>velocity (updatePhysics now s)\<bar> \<le> friction powr (1 / 16) * \<bar>velocity s\<bar>"
    by (elim disjE) (simp_all add: order_trans [OF vm_w w])
  from final vm_max show "\<bar>velocity (updatePhysics now s)\<bar> \<le> maxVelocity"
    by (elim disjE) (simp_all add: maxVelocity_def)
  assume "friction powr (1 / 16) * \<bar>velocity s\<bar> < minVelocity"
  with w have "\<bar>w\<bar> < minVelocity" by simp
  then have "vm = 0" by (simp add: vm_def)
  with final show "velocity (updatePhysics now s) = 0" by auto
qed

lemma run_frames_Cons [simp]:
  "run (map Frame (now # ts)) s = run (map Frame ts) (updatePhysics now s)"
  by simp

lemma coasting_append:
  "coasting (ts @ ts') s \<longleftrightarrow> coasting ts s \<and> coasting ts' (run (map Frame ts) s)"
  by (induction ts arbitrary: s) auto

lemma coasting_bound:
  "coasting ts s \<Longrightarrow>
     \<bar>velocity (run (map Frame ts) s)\<bar> \<le> (friction powr (1 / 16)) ^ length ts * \<bar>velocity s\<bar>"
proof (induction ts arbitrary: s)
  case Nil
  then show ?case by simp
next
  case (Cons now ts)
  let ?q = "friction powr (1 / 16)"
  from Cons.prems have head: "\<not> isPhysicsPaused s" "\<not> isSnapping s"
    "\<bar>inputAccumulator s\<bar> \<le> 0.001" "pullFree s" "lastUpdateTime s \<le> now"
    and tail: "coasting ts (updatePhysics now s)"
    by simp_all
  have "\<bar>velocity (run (map Frame ts) (updatePhysics now s))\<bar>
      \<le> ?q ^ length ts * \<bar>velocity (updatePhysics now s)\<bar>"
    by (rule Cons.IH [OF tail])
  also have "\<dots> \<le> ?q ^ length ts * (?q * \<bar>velocity s\<bar>)"
    by (rule mult_left_mono [OF frame_decay(1) [OF head]]) simp
  finally show ?case by (simp add: mult_ac)
qed

lemma q_le_1: "friction powr (1 / 16) \<le> 1"
  by (rule powr_le1) (simp_all add: friction_def)

lemma coasting_mono:
  "coasting ts s \<Longrightarrow> \<bar>velocity (run (map Frame ts) s)\<bar> \<le> \<bar>velocity s\<bar>"
proof -
  assume "coasting ts s"
  then have "\<bar>velocity (run (map Frame ts) s)\<bar>
      \<le> (friction powr (1 / 16)) ^ length ts * \<bar>velocity s\<bar>"
    by (rule coasting_bound)
  also have "\<dots> \<le> 1 * \<bar>velocity s\<bar>"
    by (rule mult_right_mono) (simp_all add: power_le_one q_le_1)
  finally show ?thesis by simp
qed


lemma q_power_32: "(friction powr (1 / 16)) ^ 32 = friction ^ 2"
proof -
  have "(friction powr (1 / 16)) ^ 32 = (friction powr (1 / 16)) powr (real 32)"
    by (rule powr_realpow [symmetric]) (simp add: friction_def)
  also have "\<dots> = friction powr 2"
    by (simp add: powr_powr)
  also have "\<dots> = friction ^ 2"
    by (simp add: friction_def)
  finally show ?thesis .
qed

lemma coasting_stops_at_33:
  assumes "coasting ts s" "length ts = 33"
  shows "velocity (run (map Frame ts) s) = 0"
proof -
  let ?q = "friction powr (1 / 16)"
  from assms(2) obtain t1 rest where ts: "ts = t1 # rest" and rest: "length rest = 32"
    by (cases ts) simp_all
  from rest obtain mid tl where rest_eq: "rest = mid @ [tl]" and mid: "length mid = 31"
    by (cases rest rule: rev_cases) simp_all
  let ?s1 = "updatePhysics t1 s"
  let ?s32 = "run (map Frame mid) ?s1"
  from assms(1) have head: "\<not> isPhysicsPaused s" "\<not> isSnapping s"
    "\<bar>inputAccumulator s\<bar> \<le> 0.001" "pullFree s" "lastUpdateTime s \<le> t1"
    and c_rest: "coasting (mid @ [tl]) ?s1"
    by (simp_all add: ts rest_eq)
  from c_rest have c_mid: "coasting mid ?s1" and c_last: "coasting [tl] ?s32"
    by (simp_all add: coasting_append)
  have v1: "\<bar>velocity ?s1\<bar> \<le> maxVelocity"
    by (rule frame_decay(2) [OF head])
  have "\<bar>velocity ?s32\<bar> \<le> ?q ^ length mid * \<bar>velocity ?s1\<bar>"
    by (rule coasting_bound [OF c_mid])
  also have "\<dots> \<le> ?q ^ 31 * maxVelocity"
    unfolding mid by (rule mult_left_mono [OF v1]) simp
  finally have "?q * \<bar>velocity ?s32\<bar> \<le> ?q * (?q ^ 31 * maxVelocity)"
    by (rule mult_left_mono) simp
  also have "\<dots> = ?q ^ 32 * maxVelocity"
    using power_Suc [of ?q 31] by simp
  also have "\<dots> < minVelocity"
    by (simp only: q_power_32) (simp add: friction_def maxVelocity_def minVelocity_def power2_eq_square)
  finally have small: "?q * \<bar>velocity ?s32\<bar> < minVelocity" .
  from c_last have last: "\<not> isPhysicsPaused ?s32" "\<not> isSnapping ?s32"
    "\<bar>inputAccumulator ?s32\<bar> \<le> 0.001" "pullFree ?s32" "lastUpdateTime ?s32 \<le> tl"
    by simp_all
  have "velocity (updatePhysics tl ?s32) = 0"
    by (rule frame_decay(3) [OF last small])
  moreover have "run (map Frame ts) s = updatePhysics tl ?s32"
    by (simp add: ts rest_eq run_append)
  ultimately show ?thesis by simp
qed

lemma coasting_stops:
  assumes "coasting ts s" "33 \<le> length ts"
  shows "velocity (run (map Frame ts) s) = 0"
proof -
  have split: "ts = take 33 ts @ drop 33 ts" by simp
  from assms(1) have "coasting (take 33 ts @ drop 33 ts) s"
    by (simp only: append_take_drop_id)
  then have c1: "coasting (take 33 ts) s"
    and c2: "coasting (drop 33 ts) (run (map Frame (take 33 ts)) s)"
    by (simp_all only: coasting_append)
  have "velocity (run (map Frame (take 33 ts)) s) = 0"
    by (rule coasting_stops_at_33 [OF c1]) (use assms(2) in simp)
  with coasting_mono [OF c2]
  have "velocity (run (map Frame (drop 33 ts)) (run (map Frame (take 33 ts)) s)) = 0"
    by simp
  moreover have "run (map Frame ts) s
      = run (map Frame (drop 33 ts)) (run (map Frame (take 33 ts)) s)"
    by (subst split) (simp only: map_append run_append)
  ultimately show ?thesis by simp
qed

lemma coasting_step_mono:
  assumes "coasting ts s" "k < length ts"
  shows "\<bar>velocity (run (map Frame (take (Suc k) ts)) s)\<bar>
           \<le> \<bar>velocity (run (map Frame (take k ts)) s)\<bar>"
proof -
  have "take (Suc k) ts = take k ts @ [ts ! k]"
    using assms(2) by (rule take_Suc_conv_app_nth)
  moreover have "coasting (take (Suc k) ts) s"
  proof -
    from assms(1) have "coasting (take (Suc k) ts @ drop (Suc k) ts) s"
      by (simp only: append_take_drop_id)
    then show ?thesis by (simp only: coasting_append)
  qed
  ultimately have "coasting [ts ! k] (run (map Frame (take k ts)) s)"
    by (simp add: coasting_append)
  from coasting_mono [OF this] \<open>take (Suc k) ts = take k ts @ [ts ! k]\<close>
  show ?thesis by (simp add: run_append)
qed


text \<open>
  C5. The friction constant lies strictly between 0 and 1. Over physics frames in which
  no snap is in flight, no impulse is folded in and magnetism is absent, the velocity after
  \<open>updateMomentum\<close> is \<open>velocity * friction ^ (dt / 16)\<close>, set to exactly 0 when its
  magnitude is below \<open>minVelocity\<close> and otherwise clamped to \<open>\<plusminus>maxVelocity\<close>; the magnitude
  of the velocity does not increase from one frame to the next; and after at most 33 such
  frames the velocity is exactly 0, whatever it was at the start.
\<close>

theorem friction_decay_reaches_zero:
  assumes "coasting ts s"
  shows "0 < friction \<and> friction < 1
       \<and> (\<forall>k < length ts.
             \<bar>velocity (run (map Frame (take (Suc k) ts)) s)\<bar>
               \<le> \<bar>velocity (run (map Frame (take k ts)) s)\<bar>)
       \<and> (33 \<le> length ts \<longrightarrow> velocity (run (map Frame ts) s) = 0)
       \<and> (ts \<noteq> [] \<longrightarrow>
             velocity (updateMomentum dt s) =
               (if \<bar>velocity s * friction powr (dt / 16)\<bar> < minVelocity then 0
                else max (- maxVelocity) (min maxVelocity (velocity s * friction powr (dt / 16)))))"
proof (intro conjI allI impI)
  show "0 < friction" "friction < 1" using friction_range by simp_all
next
  fix k assume "k < length ts"
  with assms show "\<bar>velocity (run (map Frame (take (Suc k) ts)) s)\<bar>
      \<le> \<bar>velocity (run (map Frame (take k ts)) s)\<bar>"
    by (rule coasting_step_mono)
next
  assume "33 \<le> length ts"
  with assms show "velocity (run (map Frame ts) s) = 0" by (rule coasting_stops)
next
  assume "ts \<noteq> []"
  then obtain now ts' where "ts = now # ts'" by (cases ts) simp_all
  with assms have "\<not> isSnapping s" "\<bar>inputAccumulator s\<bar> \<le> 0.001" "pullFree s"
    by simp_all
  then show "velocity (updateMomentum dt s) =
      (if \<bar>velocity s * friction powr (dt / 16)\<bar> < minVelocity then 0
       else max (- maxVelocity) (min maxVelocity (velocity s * friction powr (dt / 16))))"
    by (rule updateMomentum_coasting_velocity)
qed

lemma generateSections_le_horizon: "t \<in> set generateSections \<Longrightarrow> sec_position t \<le> 3000"
  by (auto simp: set_generateSections dest: sectionAt_position)

lemma pullFree_beyond_horizon:
  assumes "sections s = generateSections" "3030 < positionRef s"
  shows "pullFree s"
proof -
  have "\<not> inPullBand (positionRef s) t" if "t \<in> set generateSections" for t
  proof -
    from that have "sec_position t \<le> 3000" by (rule generateSections_le_horizon)
    then have "real_of_int (sec_position t) \<le> 3000" by simp
    with assms(2) show ?thesis by (simp add: inPullBand_def snapRadius_def)
  qed
  then show ?thesis by (simp add: pullFree_def assms(1) filter_empty_conv)
qed

lemma updatePosition_still: "\<bar>velocity s\<bar> \<le> 0.01 \<Longrightarrow> updatePosition s = s"
  by (simp add: updatePosition_def)

lemma checkForAutoSnap_still: "\<bar>velocity s\<bar> \<le> 0.1 \<or> isScrolling s \<Longrightarrow> checkForAutoSnap s = s"
  by (auto simp: checkForAutoSnap_def Let_def)

lemma updateMomentum_inputAccumulator:
  "\<bar>inputAccumulator s\<bar> \<le> 0.001 \<Longrightarrow>
     inputAccumulator (updateMomentum dt s) = inputAccumulator s"
  by (simp add: updateMomentum_def Let_def)

lemma pullFree_cong:
  "positionRef s' = positionRef s \<Longrightarrow> sections s' = sections s \<Longrightarrow> pullFree s' = pullFree s"
  by (simp add: pullFree_def)

text \<open>A coasting frame during which auto-snap cannot fire, field by field.\<close>

lemma quiet_frame:
  assumes "\<not> isPhysicsPaused s" "\<not> isSnapping s" "\<bar>inputAccumulator s\<bar> \<le> 0.001" "pullFree s"
    and vm: "vm = (if \<bar>velocity s * friction powr
                        (real_of_int (if now - lastUpdateTime s = 0 then 16
                                      else now - lastUpdateTime s) / 16)\<bar> < minVelocity
                   then 0
                   else max (- maxVelocity) (min maxVelocity
                          (velocity s * friction powr
                             (real_of_int (if now - lastUpdateTime s = 0 then 16
                                           else now - lastUpdateTime s) / 16))))"
    and quiet: "\<bar>vm\<bar> \<le> 0.1 \<or> isScrolling s"
  shows "velocity (updatePhysics now s) = vm"
    and "positionRef (updatePhysics now s) =
           (if \<bar>vm\<bar> > 0.01 then max 0 (positionRef s + vm) else positionRef s)"
    and "inputAccumulator (updatePhysics now s) = inputAccumulator s"
    and "isScrolling (updatePhysics now s) = isScrolling s"
    and "\<not> isSnapping (updatePhysics now s)"
    and "\<not> isPhysicsPaused (updatePhysics now s)"
    and "sections (updatePhysics now s) = sections s"
    and "lastUpdateTime (updatePhysics now s) = now"
proof -
  define m where "m = updateMomentum
    (real_of_int (if now - lastUpdateTime s = 0 then 16 else now - lastUpdateTime s))
    (s\<lparr>lastUpdateTime := now\<rparr>)"
  have "pullFree (s\<lparr>lastUpdateTime := now\<rparr>)" using assms(4) by (simp add: pullFree_def)
  then have v: "velocity m = vm"
    unfolding m_def using assms(2,3) by (simp add: updateMomentum_coasting_velocity vm)
  have m_fields: "positionRef m = positionRef s" "inputAccumulator m = inputAccumulator s"
    "isScrolling m = isScrolling s" "isSnapping m = isSnapping s"
    "isPhysicsPaused m = isPhysicsPaused s" "sections m = sections s" "lastUpdateTime m = now"
    unfolding m_def using assms(3) by (simp_all add: updateMomentum_inputAccumulator)
  have "updatePhysics now s = checkForAutoSnap (updatePosition m)"
    unfolding m_def using assms(1) by (simp only: updatePhysics_unfold if_False)
  moreover have "checkForAutoSnap (updatePosition m) = updatePosition m"
    by (rule checkForAutoSnap_still) (use quiet v m_fields(3) in simp)
  ultimately have phys: "updatePhysics now s = updatePosition m" by simp
  show "velocity (updatePhysics now s) = vm" by (simp add: phys v)
  show "positionRef (updatePhysics now s) =
           (if \<bar>vm\<bar> > 0.01 then max 0 (positionRef s + vm) else positionRef s)"
    by (simp add: phys updatePosition_value v m_fields)
  show "inputAccumulator (updatePhysics now s) = inputAccumulator s"
    by (simp add: phys m_fields)
  show "isScrolling (updatePhysics now s) = isScrolling s" by (simp add: phys m_fields)
  show "\<not> isSnapping (updatePhysics now s)" using assms(2) by (simp add: phys m_fields)
  show "\<not> isPhysicsPaused (updatePhysics now s)" using assms(1) by (simp add: phys m_fields)
  show "sections (updatePhysics now s) = sections s" by (simp add: phys m_fields)
  show "lastUpdateTime (updatePhysics now s) = now" by (simp add: phys m_fields)
qed

lemma coasting_at_rest:
  assumes "velocity s = 0" "\<not> isPhysicsPaused s" "\<not> isSnapping s"
    "\<bar>inputAccumulator s\<bar> \<le> 0.001" "pullFree s" "sorted (lastUpdateTime s # ts)"
  shows "coasting ts s"
  using assms
proof (induction ts arbitrary: s)
  case Nil
  show ?case by simp
next
  case (Cons now ts)
  note q = quiet_frame [OF Cons.prems(2,3,4,5), of 0 now]
  have vm: "(0::real) = (if \<bar>velocity s * friction powr
        (real_of_int (if now - lastUpdateTime s = 0 then 16 else now - lastUpdateTime s) / 16)\<bar>
          < minVelocity then 0
      else max (- maxVelocity) (min maxVelocity (velocity s * friction powr
        (real_of_int (if now - lastUpdateTime s = 0 then 16 else now - lastUpdateTime s) / 16))))"
    by (simp add: Cons.prems(1) minVelocity_def)
  have quiet: "\<bar>0::real\<bar> \<le> 0.1 \<or> isScrolling s" by simp
  note f = q [OF vm quiet]
  have "pullFree (updatePhysics now s)"
    using Cons.prems(5) f(2,7) by (simp add: pullFree_def)
  moreover have "sorted (lastUpdateTime (updatePhysics now s) # ts)"
    using Cons.prems(6) by (simp add: f(8))
  ultimately have "coasting ts (updatePhysics now s)"
    using f Cons.prems(4) by (intro Cons.IH) simp_all
  moreover have "lastUpdateTime s \<le> now" using Cons.prems(6) by simp
  ultimately show ?case using Cons.prems by simp
qed


text \<open>A scroller beyond the end of the section map (position 4000) set in motion by a
  touch drag of 10 pixels: velocity 1.8, no pending impulse.\<close>

lemma touch_drag_state:
  "velocity (run [TouchStart 1 100 0, TouchMove 1 90 10] (newScroller 4000 True True 66 True False)) = 9 / 5"
  "inputAccumulator (run [TouchStart 1 100 0, TouchMove 1 90 10] (newScroller 4000 True True 66 True False)) = 0"
  "isScrolling (run [TouchStart 1 100 0, TouchMove 1 90 10] (newScroller 4000 True True 66 True False))"
  "positionRef (run [TouchStart 1 100 0, TouchMove 1 90 10] (newScroller 4000 True True 66 True False)) = 4000"
  "lastUpdateTime (run [TouchStart 1 100 0, TouchMove 1 90 10] (newScroller 4000 True True 66 True False)) = 0"
  "sections (run [TouchStart 1 100 0, TouchMove 1 90 10] (newScroller 4000 True True 66 True False)) = generateSections"
  "\<not> isPhysicsPaused (run [TouchStart 1 100 0, TouchMove 1 90 10] (newScroller 4000 True True 66 True False))"
  "\<not> isSnapping (run [TouchStart 1 100 0, TouchMove 1 90 10] (newScroller 4000 True True 66 True False))"
  by (simp_all add: handleTouchStart_def handleTouchMove_def killAllTweens_def newScroller_def
      Let_def maxVelocity_def)

theorem friction_decay_reaches_zero_witness:
  "coasting [16, 32, 48, 64, 80, 96, 112, 128, 144, 160, 176, 192, 208, 224, 240, 256, 272,
        288, 304, 320, 336, 352, 368, 384, 400, 416, 432, 448, 464, 480, 496, 512, 528]
     (run [TouchStart 1 100 0, TouchMove 1 90 10] (newScroller 4000 True True 66 True False))
   \<and> velocity (run [TouchStart 1 100 0, TouchMove 1 90 10] (newScroller 4000 True True 66 True False)) = 9 / 5
   \<and> \<bar>velocity (run (map Frame (take (Suc 0) [16, 32, 48, 64, 80, 96, 112, 128, 144, 160, 176, 192, 208, 224, 240, 256, 272,
        288, 304, 320, 336, 352, 368, 384, 400, 416, 432, 448, 464, 480, 496, 512, 528])) (run [TouchStart 1 100 0, TouchMove 1 90 10] (newScroller 4000 True True 66 True False)))\<bar>
       \<le> \<bar>velocity (run (map Frame (take 0 [16, 32, 48, 64, 80, 96, 112, 128, 144, 160, 176, 192, 208, 224, 240, 256, 272,
        288, 304, 320, 336, 352, 368, 384, 400, 416, 432, 448, 464, 480, 496, 512, 528])) (run [TouchStart 1 100 0, TouchMove 1 90 10] (newScroller 4000 True True 66 True False)))\<bar>
   \<and> velocity (run (map Frame [16, 32, 48, 64, 80, 96, 112, 128, 144, 160, 176, 192, 208, 224, 240, 256, 272,
        288, 304, 320, 336, 352, 368, 384, 400, 416, 432, 448, 464, 480, 496, 512, 528]) (run [TouchStart 1 100 0, TouchMove 1 90 10] (newScroller 4000 True True 66 True False))) = 0"
proof -
  define S0 where "S0 = run [TouchStart 1 100 0, TouchMove 1 90 10]
    (newScroller 4000 True True 66 True False)"
  define S1 where "S1 = updatePhysics 16 S0"
  define S2 where "S2 = updatePhysics 32 S1"
  note f0 = touch_drag_state [folded S0_def]
  have p0: "pullFree S0"
    by (rule pullFree_beyond_horizon) (simp_all add: f0)
  have a0: "\<bar>inputAccumulator S0\<bar> \<le> 0.001" by (simp add: f0)
  have vm1: "(27 / 1000 :: real) = (if \<bar>velocity S0 * friction powr
        (real_of_int (if 16 - lastUpdateTime S0 = 0 then 16 else 16 - lastUpdateTime S0) / 16)\<bar>
          < minVelocity then 0
      else max (- maxVelocity) (min maxVelocity (velocity S0 * friction powr
        (real_of_int (if 16 - lastUpdateTime S0 = 0 then 16 else 16 - lastUpdateTime S0) / 16))))"
    by (simp add: f0 friction_def minVelocity_def maxVelocity_def)
  have quiet1: "\<bar>27 / 1000 :: real\<bar> \<le> 0.1 \<or> isScrolling S0" by simp
  note f1 = quiet_frame [OF f0(7) f0(8) a0 p0 vm1 quiet1, folded S1_def]
  have pos1: "positionRef S1 = 4000 + 27 / 1000"
    by (simp add: f1 f0)
  have p1: "pullFree S1"
    by (rule pullFree_beyond_horizon) (simp_all add: f1(7) f0 pos1)
  have a1: "\<bar>inputAccumulator S1\<bar> \<le> 0.001" by (simp add: f1 f0)
  have vm2: "(0 :: real) = (if \<bar>velocity S1 * friction powr
        (real_of_int (if 32 - lastUpdateTime S1 = 0 then 16 else 32 - lastUpdateTime S1) / 16)\<bar>
          < minVelocity then 0
      else max (- maxVelocity) (min maxVelocity (velocity S1 * friction powr
        (real_of_int (if 32 - lastUpdateTime S1 = 0 then 16 else 32 - lastUpdateTime S1) / 16))))"
    by (simp add: f1 friction_def minVelocity_def maxVelocity_def)
  have quiet2: "\<bar>0 :: real\<bar> \<le> 0.1 \<or> isScrolling S1" by simp
  note f2 = quiet_frame [OF f1(6) f1(5) a1 p1 vm2 quiet2, folded S2_def]
  have p2: "pullFree S2"
    using p1 f2(2,7) by (simp add: pullFree_def)
  have a2: "\<bar>inputAccumulator S2\<bar> \<le> 0.001" by (simp add: f2 f1 f0)
  have "sorted (lastUpdateTime S2 # [48, 64, 80, 96, 112, 128, 144, 160, 176, 192, 208, 224, 240, 256, 272, 288,
        304, 320, 336, 352, 368, 384, 400, 416, 432, 448, 464, 480, 496, 512, 528])"
    by (simp add: f2)
  then have rest: "coasting [48, 64, 80, 96, 112, 128, 144, 160, 176, 192, 208, 224, 240, 256, 272, 288,
        304, 320, 336, 352, 368, 384, 400, 416, 432, 448, 464, 480, 496, 512, 528] S2"
    by (rule coasting_at_rest [OF f2(1) f2(6) f2(5) a2 p2])
  have c: "coasting [16, 32, 48, 64, 80, 96, 112, 128, 144, 160, 176, 192, 208, 224, 240, 256, 272,
        288, 304, 320, 336, 352, 368, 384, 400, 416, 432, 448, 464, 480, 496, 512, 528] S0"
    using rest f0(7,8) a0 p0 f1(5,6,8) a1 p1
    by (simp add: f0(5) S1_def [symmetric] S2_def [symmetric])
  note decay = friction_decay_reaches_zero [OF c, of 16]
  have len: "0 < length [16, 32, 48, 64, 80, 96, 112, 128, 144, 160, 176, 192, 208, 224, 240, 256, 272,
        288, 304, 320, 336, 352, 368, 384, 400, 416, 432, 448, 464, 480, 496, 512, 528]"
    "33 \<le> length [16, 32, 48, 64, 80, 96, 112, 128, 144, 160, 176, 192, 208, 224, 240, 256, 272,
        288, 304, 320, 336, 352, 368, 384, 400, 416, 432, 448, 464, 480, 496, 512, 528]"
    by simp_all
  from decay len(1) have A: "\<bar>velocity (run (map Frame (take (Suc 0) [16, 32, 48, 64, 80, 96, 112, 128, 144, 160, 176, 192, 208, 224, 240, 256, 272,
        288, 304, 320, 336, 352, 368, 384, 400, 416, 432, 448, 464, 480, 496, 512, 528])) S0)\<bar>
      \<le> \<bar>velocity (run (map Frame (take 0 [16, 32, 48, 64, 80, 96, 112, 128, 144, 160, 176, 192, 208, 224, 240, 256, 272,
        288, 304, 320, 336, 352, 368, 384, 400, 416, 432, 448, 464, 480, 496, 512, 528])) S0)\<bar>"
    by blast
  from decay len(2) have B: "velocity (run (map Frame [16, 32, 48, 64, 80, 96, 112, 128, 144, 160, 176, 192, 208, 224, 240, 256, 272,
        288, 304, 320, 336, 352, 368, 384, 400, 416, 432, 448, 464, 480, 496, 512, 528]) S0) = 0"
    by blast
  show ?thesis
    unfolding S0_def [symmetric]
    by (intro conjI) (rule c f0(1) A B)+
qed

end
